theory Spec2Isabelle
  imports Main "HOL-Library.Word"
begin

unbundle bit_operations_syntax

section \<open>Error numbers and mount flags\<close>

text \<open>
  The C functions return \<open>int\<close>: \<open>0\<close> on success and a negated errno on failure.
  The errno values are those of the Linux headers.  The specification's error names
  stand for them: \<open>NotFound\<close> is \<open>- ENOENT\<close>, \<open>AlreadyExists\<close> is \<open>- EEXIST\<close>,
  \<open>IOError\<close> is \<open>- EIO\<close>, \<open>NotSupported\<close> is \<open>- EOPNOTSUPP\<close>.  \<open>Busy\<close> is the
  failure of the maintenance gate: \<open>au_plink_maint_enter\<close> reports it as \<open>- EBUSY\<close>
  and \<open>au_plink_maint\<close> as \<open>- EAGAIN\<close>.
\<close>

definition ENOENT :: int where "ENOENT = 2"
definition EIO :: int where "EIO = 5"
definition EAGAIN :: int where "EAGAIN = 11"
definition ENOMEM :: int where "ENOMEM = 12"
definition EBUSY :: int where "EBUSY = 16"
definition EEXIST :: int where "EEXIST = 17"
definition ENOTDIR :: int where "ENOTDIR = 20"
definition EISDIR :: int where "EISDIR = 21"
definition ENOSPC :: int where "ENOSPC = 28"
definition ENAMETOOLONG :: int where "ENAMETOOLONG = 36"
definition EOPNOTSUPP :: int where "EOPNOTSUPP = 95"

text \<open>Mount flags (\<open>opts.h\<close>): an \<open>unsigned int\<close> bit mask.\<close>

definition AuOpt_UDBA_NONE :: "32 word" where "AuOpt_UDBA_NONE = push_bit 2 1"
definition AuOpt_UDBA_REVAL :: "32 word" where "AuOpt_UDBA_REVAL = push_bit 3 1"
definition AuOpt_PLINK :: "32 word" where "AuOpt_PLINK = push_bit 6 1"

text \<open>\<open>au_opt_test(flags, PLINK)\<close> is \<open>flags & AuOpt_PLINK\<close>, used as a truth value.\<close>

definition au_opt_test_PLINK :: "32 word \<Rightarrow> bool" where
  "au_opt_test_PLINK flags = (flags AND AuOpt_PLINK \<noteq> 0)"

section \<open>The pseudo-link maintenance mode (\<open>plink.c\<close>)\<close>

text \<open>
  A task is named by the address of its \<open>task_struct\<close>.  The process table gives,
  for each task, its \<open>real_parent\<close>, its \<open>pid\<close> field and the value of
  \<open>task_pid_vnr\<close>.
\<close>

type_synonym tid = nat

record procs =
  real_parent :: "tid \<Rightarrow> tid"
  task_pid :: "tid \<Rightarrow> int"
  task_pid_vnr :: "tid \<Rightarrow> int"

text \<open>
  The part of \<open>struct au_sbinfo\<close> the maintenance mode uses.  \<open>si_plink_wq\<close> is the
  wait queue, as the list of tasks sleeping on it.
\<close>

record au_sbinfo =
  si_mntflags :: "32 word"
  si_plink_maint_pid :: int
  si_plink_wq :: "tid list"

text \<open>
  The \<open>AuLock_*\<close> bits are declared outside these sources; a flag word is given by the
  bits \<open>au_ftest_lock\<close> asks for.
\<close>

record lock_flags =
  NOPLM :: bool
  NOPLMW :: bool
  FLUSH :: bool

text \<open>
  The walk over the ancestors in \<open>au_plink_maint\<close>:
  \<^verbatim>\<open>
    while (1) {
        parent = rcu_dereference(parent->real_parent);
        if (parent == prev) break;
        ppid = task_pid_vnr(parent);
        if (pid == ppid) { rcu_read_unlock(); goto out; }
        prev = parent;
    }
  \<close>
  The result is \<open>True\<close> when the walk leaves through \<open>goto out\<close> (an ancestor is the
  owner) and \<open>False\<close> when it leaves through \<open>break\<close>.  The loop ends only at a task
  that is its own \<open>real_parent\<close>, so the walk is a partial function.
\<close>

partial_function (option) plink_walk ::
  "procs \<Rightarrow> int \<Rightarrow> tid \<Rightarrow> tid option \<Rightarrow> bool option" where
  "plink_walk ps pid parent prev =
     (let parent' = real_parent ps parent in
      if Some parent' = prev then Some False
      else if pid = task_pid_vnr ps parent' then Some True
      else plink_walk ps pid parent' (Some parent'))"

text \<open>
  What a call of \<open>au_plink_maint\<close> does: it returns an \<open>int\<close>, or it goes to sleep in
  \<open>wait_event\<close> on \<open>si_plink_wq\<close>.
\<close>

datatype maint_outcome = Ret int | Wait

text \<open>
  The loop of the waiting mode,
  \<open>while (sbi->si_plink_maint_pid) { ...; wait_event(sbi->si_plink_wq, !sbi->si_plink_maint_pid); ... }\<close>:
  the caller sleeps while an owner is recorded and runs the test again when woken.
\<close>

definition plink_wait_loop :: "au_sbinfo \<Rightarrow> tid \<Rightarrow> maint_outcome \<times> au_sbinfo" where
  "plink_wait_loop sbi cur =
     (if si_plink_maint_pid sbi \<noteq> 0
      then (Wait, sbi\<lparr>si_plink_wq := si_plink_wq sbi @ [cur]\<rparr>)
      else (Ret 0, sbi))"

definition au_plink_maint ::
  "procs \<Rightarrow> au_sbinfo \<Rightarrow> lock_flags \<Rightarrow> tid \<Rightarrow> (maint_outcome \<times> au_sbinfo) option" where
  "au_plink_maint ps sbi flags cur =
     (if \<not> au_opt_test_PLINK (si_mntflags sbi) then Some (Ret 0, sbi)
      else
        let pid = si_plink_maint_pid sbi in
        if pid = 0 \<or> pid = task_pid ps cur then Some (Ret 0, sbi)
        else
          case plink_walk ps pid cur None of
            None \<Rightarrow> None
          | Some True \<Rightarrow> Some (Ret 0, sbi)
          | Some False \<Rightarrow>
              if NOPLMW flags then Some (plink_wait_loop sbi cur)
              else if NOPLM flags then Some (Ret (- EAGAIN), sbi)
              else Some (Ret 0, sbi))"


definition au_plink_maint_enter :: "au_sbinfo \<Rightarrow> int \<Rightarrow> int \<times> au_sbinfo" where
  "au_plink_maint_enter sbinfo current_pid =
     (if au_opt_test_PLINK (si_mntflags sbinfo) then
        (if si_plink_maint_pid sbinfo = 0
         then (0, sbinfo\<lparr>si_plink_maint_pid := current_pid\<rparr>)
         else (- EBUSY, sbinfo))
      else (0, sbinfo))"

text \<open>
  Several callers of \<open>au_plink_maint_enter\<close>, one after the other: the function runs
  under \<open>si_write_lock\<close> and \<open>si_plink_maint_lock\<close>, so concurrent calls take effect in
  some order.  The result is the list of return values and the final state.
\<close>

fun enter_all :: "au_sbinfo \<Rightarrow> int list \<Rightarrow> int list \<times> au_sbinfo" where
  "enter_all sbinfo [] = ([], sbinfo)"
| "enter_all sbinfo (p # ps) =
     (let (r, sbinfo') = au_plink_maint_enter sbinfo p;
          (rs, sbinfo'') = enter_all sbinfo' ps
      in (r # rs, sbinfo''))"

section \<open>The pseudo-link table (\<open>plink.c\<close>)\<close>

text \<open>
  An aufs inode is named by its address; \<open>&icntnr->vfs_inode == inode\<close> compares
  addresses.  A bucket of \<open>si_plink\<close> is the chain of the inodes linked into it, head
  first.  \<open>i_count\<close> is the reference count \<open>au_igrab\<close> raises and \<open>iput\<close> lowers.
  \<open>wbr_plink\<close> is, for each branch, the native directory that holds the pseudo-links:
  a name there is the pair of numbers \<open>plink_name\<close> prints as \<open>"%lu.%lu"\<close>, and it
  leads to the number of the native inode linked under it.
\<close>

type_synonym inode = nat
type_synonym plink_dir = "nat \<times> nat \<Rightarrow> nat option"

datatype plink_event =
    HblLock nat
  | HblUnlock nat
  | HblScan nat inode bool
  | HblAddHead nat inode
  | HblDel nat inode
  | Igrab inode
  | Iput inode
  | AuWarn1 nat
  | PrWarn int

record plink_tbl =
  si_plink :: "nat \<Rightarrow> inode list"
  i_count :: "inode \<Rightarrow> int"
  i_ino :: "inode \<Rightarrow> nat"
  h_i_ino :: "inode \<Rightarrow> int \<Rightarrow> nat"
  wbr_plink :: "int \<Rightarrow> plink_dir"
  plink_log :: "plink_event list"

text \<open>
  \<open>au_plink_hash\<close> and the threshold \<open>AUFS_PLINK_WARN\<close> are declared outside these
  sources and are parameters here.
\<close>

record plink_params =
  au_plink_hash :: "nat \<Rightarrow> nat"
  AUFS_PLINK_WARN :: nat

text \<open>
  What the native file system and the work queue answer during one call:
  whether \<open>current_fsuid()\<close> is root, the value of \<open>au_wkq_wait\<close>, the error of the
  \<open>n\<close>-th \<open>vfsub_lkup_one\<close> of the call, and the errors of \<open>vfsub_unlink\<close> and
  \<open>vfsub_link\<close> (\<open>0\<close> for success).  A native call that succeeds has its effect on the
  directory; one that fails has none.  When \<open>au_wkq_wait\<close> fails the work was not run.
\<close>

record plink_env =
  fsuid_root :: bool
  wkq_err :: int
  lkup_err :: "nat \<Rightarrow> int"
  unlink_err :: int
  link_err :: int

definition plog :: "plink_event list \<Rightarrow> plink_tbl \<Rightarrow> plink_tbl" where
  "plog es t = t\<lparr>plink_log := plink_log t @ es\<rparr>"

text \<open>The loop \<open>hlist_bl_for_each_entry\<close> with its \<open>break\<close>.\<close>

fun hbl_find :: "inode list \<Rightarrow> inode \<Rightarrow> bool" where
  "hbl_find [] inode = False"
| "hbl_find (x # xs) inode = (if x = inode then True else hbl_find xs inode)"

definition au_plink_test :: "plink_params \<Rightarrow> plink_tbl \<Rightarrow> inode \<Rightarrow> bool \<times> plink_tbl" where
  "au_plink_test prm t inode =
     (let i = au_plink_hash prm (i_ino t inode);
          found = hbl_find (si_plink t i) inode
      in (found, plog [HblLock i, HblScan i inode found, HblUnlock i] t))"

definition plink_name :: "plink_tbl \<Rightarrow> inode \<Rightarrow> int \<Rightarrow> nat \<times> nat" where
  "plink_name t inode bindex = (i_ino t inode, h_i_ino t inode bindex)"

text \<open>
  \<open>do_whplink\<close>: \<open>h_inode\<close> is \<open>d_inode(h_dentry)\<close>, and \<open>n\<close> counts the lookups made.
  The label \<open>again\<close> is the recursive call; it is taken after an unlink that succeeded,
  so the name is free the second time round.
\<close>

function do_whplink ::
  "plink_env \<Rightarrow> nat \<Rightarrow> plink_dir \<Rightarrow> nat \<times> nat \<Rightarrow> nat \<Rightarrow> int \<times> plink_dir" where
  "do_whplink env n dir tgt h_inode =
     (if lkup_err env n \<noteq> 0 then (lkup_err env n, dir)
      else
        case dir tgt of
          Some x \<Rightarrow>
            if x \<noteq> h_inode then
              (if unlink_err env \<noteq> 0 then (unlink_err env, dir)
               else do_whplink env (Suc n) (dir(tgt := None)) tgt h_inode)
            else (0, dir)
        | None \<Rightarrow>
            if link_err env \<noteq> 0 then (link_err env, dir)
            else (0, dir(tgt \<mapsto> h_inode)))"
  by pat_completeness auto
termination
  by (relation "measure (\<lambda>(env, n, dir, tgt, h_inode). if dir tgt = None then 0 else 1)") auto

text \<open>
  \<open>whplink\<close>: a caller that is not root hands \<open>do_whplink\<close> to the work queue and
  waits for it.
\<close>

definition whplink ::
  "plink_env \<Rightarrow> plink_tbl \<Rightarrow> nat \<Rightarrow> inode \<Rightarrow> int \<Rightarrow> int \<times> plink_tbl" where
  "whplink env t h_inode inode bindex =
     (let tgtname = plink_name t inode bindex;
          run = (let (err, dir) = do_whplink env 0 (wbr_plink t bindex) tgtname h_inode
                 in (err, t\<lparr>wbr_plink := (wbr_plink t)(bindex := dir)\<rparr>))
      in if \<not> fsuid_root env
         then (if wkq_err env \<noteq> 0 then (wkq_err env, t) else run)
         else run)"

definition au_igrab :: "plink_tbl \<Rightarrow> inode \<Rightarrow> plink_tbl" where
  "au_igrab t inode = plog [Igrab inode] (t\<lparr>i_count := (i_count t)(inode := i_count t inode + 1)\<rparr>)"

definition iput :: "plink_tbl \<Rightarrow> inode \<Rightarrow> plink_tbl" where
  "iput t inode = plog [Iput inode] (t\<lparr>i_count := (i_count t)(inode := i_count t inode - 1)\<rparr>)"

text \<open>\<open>au_hbl_del\<close> takes the bucket lock, unlinks the node and releases the lock.\<close>

definition au_hbl_del :: "plink_tbl \<Rightarrow> nat \<Rightarrow> inode \<Rightarrow> plink_tbl" where
  "au_hbl_del t i inode =
     plog [HblLock i, HblDel i inode, HblUnlock i]
       (t\<lparr>si_plink := (si_plink t)(i := remove1 inode (si_plink t i))\<rparr>)"

text \<open>
  The critical section of \<open>au_plink_append\<close>, from \<open>hlist_bl_lock(hbl)\<close> to
  \<open>hlist_bl_unlock(hbl)\<close>: the chain is searched again, and the inode is added at the
  head when it is not there.
\<close>

definition plink_add_locked :: "plink_params \<Rightarrow> plink_tbl \<Rightarrow> inode \<Rightarrow> bool \<times> plink_tbl" where
  "plink_add_locked prm t inode =
     (let i = au_plink_hash prm (i_ino t inode);
          found = hbl_find (si_plink t i) inode
      in if \<not> found
         then (found,
               plog [HblLock i, HblScan i inode found, HblAddHead i inode, HblUnlock i]
                 (t\<lparr>si_plink := (si_plink t)(i := inode # si_plink t i)\<rparr>))
         else (found, plog [HblLock i, HblScan i inode found, HblUnlock i] t))"

text \<open>
  The rest of \<open>au_plink_append\<close>, after the critical section.  \<open>found\<close> is what the
  search under the lock gave.
\<close>

definition plink_append_tail ::
  "plink_params \<Rightarrow> plink_env \<Rightarrow> bool \<Rightarrow> plink_tbl \<Rightarrow> inode \<Rightarrow> int \<Rightarrow> nat \<Rightarrow> plink_tbl" where
  "plink_append_tail prm env found t inode bindex h_inode =
     (let i = au_plink_hash prm (i_ino t inode) in
      if \<not> found then
        let cnt = length (si_plink t i);
            t1 = (if cnt > AUFS_PLINK_WARN prm then plog [AuWarn1 cnt] t else t);
            (err, t2) = whplink env t1 h_inode inode bindex
        in if err \<noteq> 0
           then iput (au_hbl_del (plog [PrWarn err] t2) i inode) inode
           else t2
      else iput t inode)"

text \<open>
  \<open>au_plink_append\<close> returns \<open>void\<close>: its result is the new state only.  The two
  \<open>AuDebugOn\<close> lines state what the caller has to ensure and do nothing else; and
  \<open>AuWarn1\<close> is logged at every call here, where the macro prints once.
\<close>

definition au_plink_append ::
  "plink_params \<Rightarrow> plink_env \<Rightarrow> plink_tbl \<Rightarrow> inode \<Rightarrow> int \<Rightarrow> nat \<Rightarrow> plink_tbl" where
  "au_plink_append prm env t inode bindex h_inode =
     (let (found, t0) = au_plink_test prm t inode in
      if found then t0
      else
        let t1 = au_igrab t0 inode;
            (found', t2) = plink_add_locked prm t1 inode
        in plink_append_tail prm env found' t2 inode bindex h_inode)"

text \<open>
  The locking discipline of a sequence of bucket events.  \<open>held\<close> is the bucket whose
  lock is taken; \<open>seen\<close> is the inode a search under that lock has just missed.  A
  search, an insertion and a removal need the lock of their bucket, and an insertion
  needs a search that missed the same inode since that lock was taken.
\<close>

fun hbl_guarded :: "nat option \<Rightarrow> inode option \<Rightarrow> plink_event list \<Rightarrow> bool" where
  "hbl_guarded held seen [] = (held = None)"
| "hbl_guarded held seen (HblLock i # es) = (held = None \<and> hbl_guarded (Some i) None es)"
| "hbl_guarded held seen (HblUnlock i # es) = (held = Some i \<and> hbl_guarded None None es)"
| "hbl_guarded held seen (HblScan i x found # es) =
     (held = Some i \<and> hbl_guarded held (if found then None else Some x) es)"
| "hbl_guarded held seen (HblAddHead i x # es) =
     (held = Some i \<and> seen = Some x \<and> hbl_guarded held None es)"
| "hbl_guarded held seen (HblDel i x # es) = (held = Some i \<and> hbl_guarded held None es)"
| "hbl_guarded held seen (e # es) = hbl_guarded held seen es"

text \<open>
  Two tasks in \<open>au_plink_append\<close> for the same inode.  A task is at one of these
  points: before \<open>au_plink_test\<close>, before \<open>au_igrab\<close>, before the critical section,
  after it (with what the search under the lock gave), or at its \<open>return\<close>.  The step
  of a task from a point runs the code up to the next point; the bucket lock makes
  \<open>au_plink_test\<close> and the critical section indivisible.  A schedule says which task
  takes the next step: \<open>True\<close> for the first one, \<open>False\<close> for the second.
\<close>

datatype append_pc = At_test | At_igrab | At_lock | At_tail bool | At_return

definition append_step ::
  "plink_params \<Rightarrow> plink_env \<Rightarrow> inode \<Rightarrow> int \<Rightarrow> nat \<Rightarrow> append_pc \<times> plink_tbl
     \<Rightarrow> append_pc \<times> plink_tbl" where
  "append_step prm env inode bindex h_inode c =
     (case c of
        (At_test, t) \<Rightarrow>
          (let (found, t0) = au_plink_test prm t inode
           in (if found then At_return else At_igrab, t0))
      | (At_igrab, t) \<Rightarrow> (At_lock, au_igrab t inode)
      | (At_lock, t) \<Rightarrow>
          (let (found, t2) = plink_add_locked prm t inode in (At_tail found, t2))
      | (At_tail found, t) \<Rightarrow>
          (At_return, plink_append_tail prm env found t inode bindex h_inode)
      | (At_return, t) \<Rightarrow> (At_return, t))"

fun append_two ::
  "plink_params \<Rightarrow> plink_env \<Rightarrow> plink_env \<Rightarrow> inode \<Rightarrow> int \<Rightarrow> nat \<Rightarrow> bool list
     \<Rightarrow> append_pc \<times> append_pc \<times> plink_tbl \<Rightarrow> append_pc \<times> append_pc \<times> plink_tbl" where
  "append_two prm env1 env2 inode bindex h_inode [] c = c"
| "append_two prm env1 env2 inode bindex h_inode (first # sch) (pc1, pc2, t) =
     (if first then
        (let (pc1', t') = append_step prm env1 inode bindex h_inode (pc1, t)
         in append_two prm env1 env2 inode bindex h_inode sch (pc1', pc2, t'))
      else
        (let (pc2', t') = append_step prm env2 inode bindex h_inode (pc2, t)
         in append_two prm env1 env2 inode bindex h_inode sch (pc1, pc2', t')))"

section \<open>Adding an entry (\<open>i_op_add.c\<close>)\<close>

text \<open>
  One creation call concerns one name in one parent directory.  The state holds what
  the call reads and writes of the new \<open>dentry\<close> and its \<open>au_dinfo\<close>, of the native
  branches under that name, and of the parent directory:
  \<^item> \<open>d_inode\<close>: the inode the dentry is attached to (\<open>d_really_is_positive\<close> when there
    is one), and \<open>i_nlink\<close> its link count;
  \<^item> \<open>d_fsdata\<close>: whether the dentry has its \<open>au_dinfo\<close>;
  \<^item> \<open>di_hdentry b\<close>: the native dentry held for branch \<open>b\<close> (\<open>hd_dentry\<close>);
  \<^item> \<open>h_positive b\<close>: the native object of this name exists on branch \<open>b\<close>
    (\<open>d_is_positive(au_h_dptr(dentry, b))\<close>); \<open>h_nlink\<close>, \<open>h_isdir\<close> and \<open>h_d_parent\<close>
    are its link count, whether it is a directory, and its native parent;
  \<^item> \<open>wh_positive b\<close>: the whiteout of this name exists on branch \<open>b\<close>;
  \<^item> \<open>diropq b\<close>: the directory of this name on branch \<open>b\<close> carries the opaque marker;
  \<^item> \<open>dir_nlink\<close>, \<open>dir_iversion\<close>, \<open>dir_ibtop\<close>: the parent directory's inode;
  \<^item> \<open>h_tmpfile_op b\<close>: the native directory on branch \<open>b\<close> has the \<open>tmpfile\<close> operation;
  \<^item> \<open>pinned\<close>: the parent is pinned (\<open>au_pin\<close> without \<open>au_unpin\<close>);
  \<^item> \<open>calls\<close>: the calls made so far, in order.
\<close>

datatype call =
    Call_aufs_read_lock
  | Call_aufs_read_unlock
  | Call_si_read_lock
  | Call_si_read_unlock
  | Call_au_di_init
  | Call_au_di_fin
  | Call_di_write_lock_parent
  | Call_di_write_unlock_parent
  | Call_di_write_unlock
  | Call_au_digen_test
  | Call_au_wr_dir
  | Call_au_pin int
  | Call_au_unpin
  | Call_au_dtime_store
  | Call_au_dtime_revert
  | Call_au_wh_lkup int
  | Call_vfsub_create int
  | Call_vfsub_symlink int
  | Call_vfsub_mknod int
  | Call_vfsub_mkdir int
  | Call_vfs_tmpfile int
  | Call_vfsub_mnt_want_write int
  | Call_vfsub_mnt_drop_write int
  | Call_au_wh_unlink_dentry int
  | Call_au_new_inode
  | Call_d_instantiate
  | Call_d_tmpfile
  | Call_au_dir_ts int
  | Call_inode_inc_iversion
  | Call_inc_nlink
  | Call_au_cpup_attr_timesizes
  | Call_au_wh_create int
  | Call_vfsub_unlink int
  | Call_vfsub_rmdir int
  | Call_au_diropq_create int
  | Call_au_diropq_remove int
  | Call_AuIOErr int int
  | Call_au_update_dbtop
  | Call_d_drop

record txn =
  d_unhashed :: bool
  d_inode :: "nat option"
  i_nlink :: nat
  d_name_len :: nat
  d_fsdata :: bool
  di_btop :: int
  di_bbot :: int
  di_bwh :: int
  di_bdiropq :: int
  di_tmpfile :: bool
  di_hdentry :: "int \<Rightarrow> nat option"
  h_positive :: "int \<Rightarrow> bool"
  h_nlink :: "int \<Rightarrow> nat"
  h_isdir :: "int \<Rightarrow> bool"
  h_d_parent :: "int \<Rightarrow> nat"
  wh_positive :: "int \<Rightarrow> bool"
  diropq :: "int \<Rightarrow> bool"
  dir_nlink :: nat
  dir_iversion :: nat
  dir_ibtop :: int
  h_tmpfile_op :: "int \<Rightarrow> bool"
  pinned :: bool
  calls :: "call list"

text \<open>
  What the functions outside these sources answer during one call.  A function that
  returns \<open>int\<close> answers \<open>0\<close> or an error; one that returns a pointer answers \<open>Inl e\<close>
  for \<open>ERR_PTR(e)\<close>, a pointer that \<open>IS_ERR\<close> accepts (so \<open>e\<close> is not \<open>0\<close>), and \<open>Inr p\<close>
  for an object.  A native call that succeeds has its effect (the object, whiteout or
  marker appears or disappears); one that fails has none.  Of \<open>au_wr_dir\<close>,
  \<open>au_dtime_store\<close>, \<open>au_dtime_revert\<close>, \<open>au_dir_ts\<close>, \<open>au_cpup_attr_timesizes\<close> and
  \<open>au_update_dbtop\<close> only the call is recorded: what they do to the times and to the
  branch range is outside these sources.  \<open>AUFS_MAX_NAMELEN\<close> is declared outside
  these sources.
  \<open>e_native\<close> is the answer of the native creation (\<open>vfsub_create\<close>, \<open>vfsub_symlink\<close>,
  \<open>vfsub_mknod\<close> or \<open>vfsub_mkdir\<close>), \<open>e_parent_is_alias\<close> that of
  \<open>d_inode(parent) == dir\<close>, \<open>e_parent_btop\<close> is \<open>au_dbtop(parent)\<close>, and \<open>e_new_i_nlink\<close>
  the link count of the inode \<open>au_new_inode\<close> returns.
\<close>

record txn_env =
  AUFS_MAX_NAMELEN :: nat
  e_kmalloc :: bool
  e_aufs_read_lock :: int
  e_au_wr_dir :: int
  e_udba :: "32 word"
  e_au_pin :: int
  e_h_parent :: nat
  e_au_wh_lkup :: "int + nat"
  e_native :: int
  e_au_wh_unlink_dentry :: int
  e_au_new_inode :: "int + nat"
  e_au_wh_create :: "int + nat"
  e_vfsub_unlink :: int
  e_au_diropq_create :: "int + nat"
  e_au_diropq_remove :: int
  e_vfsub_rmdir :: int
  e_si_read_lock :: int
  e_au_di_init :: int
  e_parent_is_alias :: bool
  e_au_digen_test :: int
  e_parent_btop :: int
  e_vfsub_mnt_want_write :: int
  e_vfs_tmpfile :: "int + nat"
  e_new_i_nlink :: nat

definition ev :: "call \<Rightarrow> txn \<Rightarrow> txn" where
  "ev c s = s\<lparr>calls := calls s @ [c]\<rparr>"

definition au_unpin :: "txn \<Rightarrow> txn" where
  "au_unpin s = ev Call_au_unpin (s\<lparr>pinned := False\<rparr>)"

text \<open>
  \<open>epilog\<close>.  \<open>wh_dentry\<close> is \<open>None\<close> for \<open>NULL\<close> and otherwise the branch of the
  whiteout that was looked up.
\<close>

definition epilog :: "txn_env \<Rightarrow> txn \<Rightarrow> int \<Rightarrow> int option \<Rightarrow> int \<times> txn" where
  "epilog env s bindex wh_dentry =
     (let bwh = (case wh_dentry of None \<Rightarrow> - 1 | Some w \<Rightarrow> di_bwh s);
          (err, s1) =
            (case wh_dentry of
               None \<Rightarrow> (0, s)
             | Some w \<Rightarrow>
                 let s' = ev (Call_au_wh_unlink_dentry w) s;
                     err = e_au_wh_unlink_dentry env
                 in if err \<noteq> 0 then (err, s')
                    else (0, s'\<lparr>wh_positive := (wh_positive s')(w := False)\<rparr>))
      in if err \<noteq> 0 then (err, s1)
         else
           let s2 = ev Call_au_new_inode s1 in
           case e_au_new_inode env of
             Inr inode \<Rightarrow>
               (0, ev Call_inode_inc_iversion (ev (Call_au_dir_ts bindex) (ev Call_d_instantiate
                     (s2\<lparr>d_inode := Some inode, dir_iversion := dir_iversion s2 + 1\<rparr>))))
           | Inl err \<Rightarrow>
               (case wh_dentry of
                  None \<Rightarrow> (err, s2)
                | Some w \<Rightarrow>
                    let s3 = ev (Call_au_wh_create bwh) s2 in
                    case e_au_wh_create env of
                      Inl rerr \<Rightarrow> (- EIO, ev (Call_AuIOErr err rerr) s3)
                    | Inr wh \<Rightarrow> (err, s3\<lparr>wh_positive := (wh_positive s3)(bwh := True)\<rparr>)))"

definition au_d_may_add :: "txn \<Rightarrow> int" where
  "au_d_may_add s =
     (let err = 0;
          err = (if d_unhashed s then - ENOENT else err);
          err = (if d_inode s \<noteq> None then - EEXIST else err)
      in err)"

definition au_may_add :: "txn_env \<Rightarrow> txn \<Rightarrow> int \<Rightarrow> nat \<Rightarrow> bool \<Rightarrow> int" where
  "au_may_add env s bindex h_parent isdir =
     (let tail = (if h_parent \<noteq> h_d_parent s bindex then - EIO else 0) in
      if d_name_len s > AUFS_MAX_NAMELEN env then - ENAMETOOLONG
      else if d_inode s = None then
        (if h_positive s bindex then - EEXIST else tail)
      else if \<not> h_positive s bindex then - EIO
      else if h_nlink s bindex = 0 then - EIO
      else if \<not> isdir then (if h_isdir s bindex then - EISDIR else tail)
      else if \<not> h_isdir s bindex then - ENOTDIR
      else tail)"

text \<open>
  The test in the middle of \<open>lock_hdir_lkup_wh\<close>, after \<open>au_pin\<close> returned \<open>0\<close>:
  \<^verbatim>\<open>
    if (udba != AuOpt_UDBA_NONE && au_dbtop(dentry) == bcpup)
        err = au_may_add(dentry, bcpup, h_parent, au_ftest_wrdir(wr_dir_args->flags, ISDIR));
    else if (unlikely(dentry->d_name.len > AUFS_MAX_NAMELEN))
        err = -ENAMETOOLONG;
  \<close>
\<close>

definition lkup_wh_check :: "txn_env \<Rightarrow> txn \<Rightarrow> int \<Rightarrow> bool \<Rightarrow> int" where
  "lkup_wh_check env s bcpup isdir =
     (if e_udba env \<noteq> AuOpt_UDBA_NONE \<and> di_btop s = bcpup
      then au_may_add env s bcpup (e_h_parent env) isdir
      else if d_name_len s > AUFS_MAX_NAMELEN env then - ENAMETOOLONG
      else 0)"

text \<open>
  \<open>lock_hdir_lkup_wh\<close>.  \<open>dt\<close> says whether a \<open>struct au_dtime\<close> was passed, \<open>isdir\<close> is
  the \<open>ISDIR\<close> flag of \<open>wr_dir_args\<close>.  The result is \<open>Inl e\<close> for \<open>ERR_PTR(e)\<close>,
  \<open>Inr None\<close> for \<open>NULL\<close> and \<open>Inr (Some b)\<close> for the whiteout dentry found on branch
  \<open>b\<close>.
\<close>

definition lock_hdir_lkup_wh ::
  "txn_env \<Rightarrow> txn \<Rightarrow> bool \<Rightarrow> bool \<Rightarrow> (int + int option) \<times> txn" where
  "lock_hdir_lkup_wh env s dt isdir =
     (let s1 = ev Call_au_wr_dir s;
          err = e_au_wr_dir env;
          bcpup = err
      in if err < 0 then (Inl err, s1)
         else
           let s2 = ev (Call_au_pin bcpup) s1;
               err = e_au_pin env
           in if err \<noteq> 0 then (Inl err, s2)
              else
                let s3 = s2\<lparr>pinned := True\<rparr>;
                    err = lkup_wh_check env s3 bcpup isdir
                in if err \<noteq> 0 then (Inl err, au_unpin s3)
                   else
                     let s4 = (if dt then ev Call_au_dtime_store s3 else s3) in
                     if bcpup \<noteq> di_bwh s4 then (Inr None, s4)
                     else
                       let s5 = ev (Call_au_wh_lkup bcpup) s4 in
                       case e_au_wh_lkup env of
                         Inl e \<Rightarrow> (Inl e, au_unpin s5)
                       | Inr wh \<Rightarrow> (Inr (Some bcpup), s5))"

text \<open>The labels \<open>out_unlock\<close> and \<open>out_parent\<close> shared by \<open>add_simple\<close> and \<open>aufs_mkdir\<close>.\<close>

definition out_unlock :: "int \<Rightarrow> txn \<Rightarrow> int \<times> txn" where
  "out_unlock err s =
     (let s1 = (if err \<noteq> 0
                then ev Call_d_drop ((ev Call_au_update_dbtop s)\<lparr>d_unhashed := True\<rparr>)
                else s)
      in (err, ev Call_aufs_read_unlock s1))"

definition out_parent :: "int \<Rightarrow> txn \<Rightarrow> int \<times> txn" where
  "out_parent err s = out_unlock err (ev Call_di_write_unlock_parent s)"

datatype simple_type = Mknod | Symlink | Creat

definition native_call :: "simple_type \<Rightarrow> int \<Rightarrow> call" where
  "native_call type btop =
     (case type of
        Creat \<Rightarrow> Call_vfsub_create btop
      | Symlink \<Rightarrow> Call_vfsub_symlink btop
      | Mknod \<Rightarrow> Call_vfsub_mknod btop)"

text \<open>
  The part of \<open>add_simple\<close> under the comment \<open>/* revert */\<close>: the object that was
  created is unlinked again when the epilogue failed.
\<close>

definition add_simple_revert :: "txn_env \<Rightarrow> int \<Rightarrow> bool \<Rightarrow> int \<Rightarrow> txn \<Rightarrow> int \<times> txn" where
  "add_simple_revert env btop created err s =
     (if created \<and> err \<noteq> 0 \<and> h_positive s btop then
        let s1 = ev (Call_vfsub_unlink btop) s;
            rerr = e_vfsub_unlink env;
            (err, s2) =
              (if rerr \<noteq> 0 then (- EIO, ev (Call_AuIOErr err rerr) s1)
               else (err, s1\<lparr>h_positive := (h_positive s1)(btop := False)\<rparr>))
        in (err, ev Call_au_dtime_revert s2)
      else (err, s))"

text \<open>
  The part of \<open>add_simple\<close> after \<open>lock_hdir_lkup_wh\<close> returned a whiteout dentry or
  \<open>NULL\<close>: the native creation, \<open>epilog\<close>, the revert, \<open>au_unpin\<close> and the exit through
  \<open>out_parent\<close>.
\<close>

definition add_simple_create :: "txn_env \<Rightarrow> txn \<Rightarrow> simple_type \<Rightarrow> int option \<Rightarrow> int \<times> txn" where
  "add_simple_create env s type wh_dentry =
     (let btop = di_btop s;
          s1 = ev (native_call type btop) s;
          err = e_native env;
          s2 = (if err = 0 then s1\<lparr>h_positive := (h_positive s1)(btop := True)\<rparr> else s1);
          created = (err = 0);
          (err, s3) = (if err = 0 then epilog env s2 btop wh_dentry else (err, s2));
          (err, s4) = add_simple_revert env btop created err s3
      in out_parent err (au_unpin s4))"

definition add_simple :: "txn_env \<Rightarrow> txn \<Rightarrow> simple_type \<Rightarrow> int \<times> txn" where
  "add_simple env s type =
     (if \<not> e_kmalloc env then (- ENOMEM, s)
      else
        let s1 = ev Call_aufs_read_lock s;
            err = e_aufs_read_lock env
        in if err \<noteq> 0 then (err, s1)
           else
             let err = au_d_may_add s1 in
             if err \<noteq> 0 then out_unlock err s1
             else
               let s2 = ev Call_di_write_lock_parent s1;
                   (wh_dentry, s3) = lock_hdir_lkup_wh env s2 True False
               in case wh_dentry of
                    Inl err \<Rightarrow> out_parent err s3
                  | Inr wh \<Rightarrow> add_simple_create env s3 type wh)"

definition aufs_mknod :: "txn_env \<Rightarrow> txn \<Rightarrow> int \<times> txn" where
  "aufs_mknod env s = add_simple env s Mknod"

definition aufs_symlink :: "txn_env \<Rightarrow> txn \<Rightarrow> int \<times> txn" where
  "aufs_symlink env s = add_simple env s Symlink"

definition aufs_create :: "txn_env \<Rightarrow> txn \<Rightarrow> int \<times> txn" where
  "aufs_create env s = add_simple env s Creat"

text \<open>
  The labels \<open>out_dir\<close> and \<open>out_unpin\<close> of \<open>aufs_mkdir\<close>: \<open>vfsub_rmdir\<close>,
  \<open>au_dtime_revert\<close>, then the common exit.
\<close>

definition mkdir_out_unpin :: "int \<Rightarrow> txn \<Rightarrow> int \<times> txn" where
  "mkdir_out_unpin err s = out_parent err (au_unpin s)"

definition mkdir_out_dir :: "txn_env \<Rightarrow> int \<Rightarrow> int \<Rightarrow> txn \<Rightarrow> int \<times> txn" where
  "mkdir_out_dir env bindex err s =
     (let s1 = ev (Call_vfsub_rmdir bindex) s;
          rerr = e_vfsub_rmdir env;
          (err, s2) =
            (if rerr \<noteq> 0 then (- EIO, ev (Call_AuIOErr err rerr) s1)
             else (err, s1\<lparr>h_positive := (h_positive s1)(bindex := False)\<rparr>))
      in mkdir_out_unpin err (ev Call_au_dtime_revert s2))"

text \<open>
  The part of \<open>aufs_mkdir\<close> under the comment \<open>/* revert */\<close>: the opaque marker is
  removed when it was set, then \<open>out_dir\<close> follows.
\<close>

definition mkdir_revert :: "txn_env \<Rightarrow> int \<Rightarrow> bool \<Rightarrow> int \<Rightarrow> txn \<Rightarrow> int \<times> txn" where
  "mkdir_revert env bindex diropq_set err s =
     (let (err, s2) =
            (if diropq_set then
               let s1 = ev (Call_au_diropq_remove bindex) s;
                   rerr = e_au_diropq_remove env
               in if rerr \<noteq> 0 then (- EIO, ev (Call_AuIOErr err rerr) s1)
                  else (err, s1\<lparr>diropq := (diropq s1)(bindex := False)\<rparr>)
             else (err, s))
      in mkdir_out_dir env bindex err s2)"

text \<open>
  The part of \<open>aufs_mkdir\<close> after \<open>lock_hdir_lkup_wh\<close> returned a whiteout dentry or
  \<open>NULL\<close>.
\<close>

definition mkdir_create :: "txn_env \<Rightarrow> txn \<Rightarrow> int option \<Rightarrow> int \<times> txn" where
  "mkdir_create env s wh_dentry =
     (let bindex = di_btop s;
          s1 = ev (Call_vfsub_mkdir bindex) s;
          err = e_native env
      in if err \<noteq> 0 then mkdir_out_unpin err s1
         else
           let s2 = s1\<lparr>h_positive := (h_positive s1)(bindex := True),
                       h_isdir := (h_isdir s1)(bindex := True)\<rparr>;
               s3 = (if wh_dentry \<noteq> None then ev (Call_au_diropq_create bindex) s2 else s2)
           in case (if wh_dentry \<noteq> None then e_au_diropq_create env else Inr 0) of
                Inl err \<Rightarrow> mkdir_out_dir env bindex err s3
              | Inr opq_dentry \<Rightarrow>
                  let diropq_set = (wh_dentry \<noteq> None);
                      s4 = (if diropq_set then s3\<lparr>diropq := (diropq s3)(bindex := True)\<rparr> else s3);
                      (err, s5) = epilog env s4 bindex wh_dentry
                  in if err = 0
                     then mkdir_out_unpin err (ev Call_inc_nlink (s5\<lparr>dir_nlink := dir_nlink s5 + 1\<rparr>))
                     else mkdir_revert env bindex diropq_set err s5)"

definition aufs_mkdir :: "txn_env \<Rightarrow> txn \<Rightarrow> int \<times> txn" where
  "aufs_mkdir env s =
     (if \<not> e_kmalloc env then (- ENOMEM, s)
      else
        let s1 = ev Call_aufs_read_lock s;
            err = e_aufs_read_lock env
        in if err \<noteq> 0 then (err, s1)
           else
             let err = au_d_may_add s1 in
             if err \<noteq> 0 then out_unlock err s1
             else
               let s2 = ev Call_di_write_lock_parent s1;
                   (wh_dentry, s3) = lock_hdir_lkup_wh env s2 True True
               in case wh_dentry of
                    Inl err \<Rightarrow> out_parent err s3
                  | Inr wh \<Rightarrow> mkdir_create env s3 wh)"

text \<open>
  \<open>aufs_tmpfile\<close>.  The labels \<open>out_parent\<close> and \<open>out_si\<close> are \<open>tmpfile_out_parent\<close>
  and \<open>tmpfile_out_si\<close>.
\<close>

definition tmpfile_out_si :: "int \<Rightarrow> txn \<Rightarrow> int \<times> txn" where
  "tmpfile_out_si err s = (err, ev Call_si_read_unlock s)"

definition tmpfile_out_parent :: "int \<Rightarrow> txn \<Rightarrow> int \<times> txn" where
  "tmpfile_out_parent err s =
     (let s1 = ev Call_di_write_unlock (ev Call_di_write_unlock_parent s);
          s2 = (if err \<noteq> 0 then (ev Call_au_di_fin s1)\<lparr>d_fsdata := False\<rparr> else s1)
      in tmpfile_out_si err s2)"

definition aufs_tmpfile :: "txn_env \<Rightarrow> txn \<Rightarrow> int \<times> txn" where
  "aufs_tmpfile env s =
     (let s1 = ev Call_si_read_lock s;
          err = e_si_read_lock env
      in if err \<noteq> 0 then (err, s1)
         else
           let s2 = ev Call_au_di_init s1;
               err = e_au_di_init env
           in if err \<noteq> 0 then tmpfile_out_si err s2
              else
                let s3 = ev Call_di_write_lock_parent (s2\<lparr>d_fsdata := True\<rparr>) in
                if \<not> e_parent_is_alias env then tmpfile_out_parent (- EBUSY) s3
                else
                  let s4 = ev Call_au_digen_test s3;
                      err = e_au_digen_test env
                  in if err \<noteq> 0 then tmpfile_out_parent err s4
                     else
                       let bindex = e_parent_btop env;
                           s5 = s4\<lparr>di_btop := bindex, di_bbot := bindex\<rparr>;
                           s6 = ev Call_au_wr_dir s5;
                           err = e_au_wr_dir env;
                           bindex = err
                       in if err < 0 then tmpfile_out_parent err s6
                          else if \<not> h_tmpfile_op s6 bindex then tmpfile_out_parent (- EOPNOTSUPP) s6
                          else
                            let s7 = ev (Call_vfsub_mnt_want_write bindex) s6;
                                err = e_vfsub_mnt_want_write env
                            in if err \<noteq> 0 then tmpfile_out_parent err s7
                               else
                                 let s8 = ev (Call_vfs_tmpfile bindex) s7 in
                                 case e_vfs_tmpfile env of
                                   Inl err \<Rightarrow>
                                     tmpfile_out_parent err (ev (Call_vfsub_mnt_drop_write bindex) s8)
                                 | Inr h_dentry \<Rightarrow>
                                     let s9 = ev Call_au_new_inode
                                                (s8\<lparr>di_btop := bindex, di_bbot := bindex,
                                                    di_hdentry := (di_hdentry s8)(bindex := Some h_dentry)\<rparr>);
                                         (err, s10) =
                                           (case e_au_new_inode env of
                                              Inl err \<Rightarrow>
                                                (err, s9\<lparr>di_hdentry := (di_hdentry s9)(bindex := None),
                                                        di_btop := - 1, di_bbot := - 1\<rparr>)
                                            | Inr inode \<Rightarrow>
                                                let s' = ev Call_d_tmpfile
                                                           (s9\<lparr>d_inode := Some inode,
                                                               i_nlink := (if e_new_i_nlink env = 0 then 1
                                                                           else e_new_i_nlink env),
                                                               di_tmpfile := True\<rparr>)
                                                in (0, if dir_ibtop s' = di_btop s'
                                                       then ev Call_au_cpup_attr_timesizes s'
                                                       else s'))
                                     in tmpfile_out_parent err
                                          (ev (Call_vfsub_mnt_drop_write bindex) s10))"

text \<open>
  The three steps that \<open>aufs_mkdir\<close> takes back after \<open>vfsub_mkdir\<close>: the removal of
  the opaque marker, the removal of the directory, and the restoring of the parent's
  times.
\<close>

fun is_unwind :: "call \<Rightarrow> bool" where
  "is_unwind (Call_au_diropq_remove b) = True"
| "is_unwind (Call_vfsub_rmdir b) = True"
| "is_unwind Call_au_dtime_revert = True"
| "is_unwind c = False"

section \<open>Invariants\<close>

text \<open>
  The notions the proofs below are built on: what stays true along a schedule of two
  tasks in \<open>au_plink_append\<close>.
\<close>

text \<open>
  The state of \<open>au_plink_append\<close> when the bucket lock is released, for an inode that
  \<open>au_plink_test\<close> did not find.
\<close>

definition pre_tail :: "plink_params \<Rightarrow> plink_tbl \<Rightarrow> inode \<Rightarrow> plink_tbl" where
  "pre_tail prm t inode = snd (plink_add_locked prm (au_igrab (snd (au_plink_test prm t inode)) inode) inode)"

text \<open>
  For the two tasks: a task that has taken its reference with \<open>au_igrab\<close> and has
  neither added the inode nor given the reference back holds one reference more than
  the table accounts for.
\<close>

definition pending :: "append_pc \<Rightarrow> int" where
  "pending pc = (if pc = At_lock \<or> pc = At_tail True then 1 else 0)"

text \<open>
  What holds at every point of every schedule of the two tasks, when the inode was not
  in the table at the start (\<open>t0\<close>) and the pseudo-link can be made: the inode is in
  its bucket at most once; \<open>i_count\<close> is the count at the start, plus one if the inode
  is in the table, plus the references the tasks still hold; a task past the critical
  section or at its return sees the inode in the table; at most one task has added the
  inode; and the native directory is untouched as long as nobody has made the
  pseudo-link.
\<close>

definition race_inv ::
  "plink_params \<Rightarrow> plink_tbl \<Rightarrow> inode \<Rightarrow> append_pc \<Rightarrow> append_pc \<Rightarrow> plink_tbl \<Rightarrow> bool" where
  "race_inv prm t0 inode pc1 pc2 t =
     (let c = count_list (si_plink t (au_plink_hash prm (i_ino t0 inode))) inode in
      i_ino t = i_ino t0 \<and> h_i_ino t = h_i_ino t0
      \<and> c \<le> 1
      \<and> i_count t inode = i_count t0 inode + int c + pending pc1 + pending pc2
      \<and> (pc1 = At_tail False \<or> pc1 = At_tail True \<or> pc1 = At_return \<longrightarrow> c = 1)
      \<and> (pc2 = At_tail False \<or> pc2 = At_tail True \<or> pc2 = At_return \<longrightarrow> c = 1)
      \<and> \<not> (pc1 = At_tail False \<and> pc2 = At_tail False)
      \<and> (c = 0 \<or> pc1 = At_tail False \<or> pc2 = At_tail False \<longrightarrow> wbr_plink t = wbr_plink t0))"

text \<open>
  The number of steps a task needs at most to reach its return.
\<close>

definition pc_dist :: "append_pc \<Rightarrow> nat" where
  "pc_dist pc = (case pc of At_test \<Rightarrow> 4 | At_igrab \<Rightarrow> 3 | At_lock \<Rightarrow> 2 | At_tail f \<Rightarrow> 1 | At_return \<Rightarrow> 0)"

section \<open>Concrete states\<close>



definition ex_sbi_noplink_held :: au_sbinfo where
  "ex_sbi_noplink_held = \<lparr>si_mntflags = 0, si_plink_maint_pid = 7, si_plink_wq = []\<rparr>"

definition ex_procs :: procs where
  "ex_procs = \<lparr>real_parent = (\<lambda>t. t - 1), task_pid = (\<lambda>t. int t + 100),
               task_pid_vnr = (\<lambda>t. int t + 100)\<rparr>"

definition ex_noplm :: lock_flags where
  "ex_noplm = \<lparr>NOPLM = True, NOPLMW = False, FLUSH = False\<rparr>"

definition ex_procs_ns :: procs where
  "ex_procs_ns = \<lparr>real_parent = (\<lambda>t. t - 1), task_pid = (\<lambda>t. int t + 100),
                  task_pid_vnr = (\<lambda>t. int t + 1)\<rparr>"

definition ex_sbi_held_parent :: au_sbinfo where
  "ex_sbi_held_parent = \<lparr>si_mntflags = AuOpt_PLINK, si_plink_maint_pid = 102, si_plink_wq = []\<rparr>"

definition ex_sbi_held :: au_sbinfo where
  "ex_sbi_held = \<lparr>si_mntflags = AuOpt_PLINK, si_plink_maint_pid = 101, si_plink_wq = []\<rparr>"

definition ex_sbi_held_other :: au_sbinfo where
  "ex_sbi_held_other = \<lparr>si_mntflags = AuOpt_PLINK, si_plink_maint_pid = 7, si_plink_wq = []\<rparr>"

definition ex_noplmw :: lock_flags where
  "ex_noplmw = \<lparr>NOPLM = False, NOPLMW = True, FLUSH = True\<rparr>"

definition ex_prm :: plink_params where
  "ex_prm = \<lparr>au_plink_hash = (\<lambda>ino. ino mod 100), AUFS_PLINK_WARN = 50\<rparr>"

definition ex_tbl :: plink_tbl where
  "ex_tbl = \<lparr>si_plink = (\<lambda>i. []), i_count = (\<lambda>inode. 1), i_ino = (\<lambda>inode. inode + 1000),
             h_i_ino = (\<lambda>inode b. inode + 5000), wbr_plink = (\<lambda>b. Map.empty), plink_log = []\<rparr>"

definition ex_env_ok :: plink_env where
  "ex_env_ok = \<lparr>fsuid_root = True, wkq_err = 0, lkup_err = (\<lambda>n. 0), unlink_err = 0, link_err = 0\<rparr>"

definition ex_env_nospc :: plink_env where
  "ex_env_nospc = \<lparr>fsuid_root = True, wkq_err = 0, lkup_err = (\<lambda>n. 0), unlink_err = 0, link_err = - ENOSPC\<rparr>"

definition ex_txn :: txn where
  "ex_txn = \<lparr>d_unhashed = False, d_inode = None, i_nlink = 0, d_name_len = 3, d_fsdata = True,
             di_btop = 2, di_bbot = 2, di_bwh = 2, di_bdiropq = - 1, di_tmpfile = False,
             di_hdentry = (\<lambda>b. None), h_positive = (\<lambda>b. False), h_nlink = (\<lambda>b. 0),
             h_isdir = (\<lambda>b. False), h_d_parent = (\<lambda>b. 10), wh_positive = (\<lambda>b. b = 2),
             diropq = (\<lambda>b. False), dir_nlink = 2, dir_iversion = 0, dir_ibtop = 2,
             h_tmpfile_op = (\<lambda>b. True), pinned = False, calls = []\<rparr>"

definition ex_tenv :: txn_env where
  "ex_tenv = \<lparr>AUFS_MAX_NAMELEN = 251, e_kmalloc = True, e_aufs_read_lock = 0, e_au_wr_dir = 2,
              e_udba = AuOpt_UDBA_REVAL, e_au_pin = 0, e_h_parent = 10, e_au_wh_lkup = Inr 20,
              e_native = 0, e_au_wh_unlink_dentry = 0, e_au_new_inode = Inr 30,
              e_au_wh_create = Inr 21, e_vfsub_unlink = 0, e_au_diropq_create = Inr 22,
              e_au_diropq_remove = 0, e_vfsub_rmdir = 0, e_si_read_lock = 0, e_au_di_init = 0,
              e_parent_is_alias = True, e_au_digen_test = 0, e_parent_btop = 2,
              e_vfsub_mnt_want_write = 0, e_vfs_tmpfile = Inr 40, e_new_i_nlink = 0\<rparr>"

definition ex_tenv_nomem :: txn_env where
  "ex_tenv_nomem = ex_tenv\<lparr>e_au_new_inode := Inl (- ENOMEM)\<rparr>"

definition ex_tenv_nomem_busy :: txn_env where
  "ex_tenv_nomem_busy = ex_tenv\<lparr>e_au_new_inode := Inl (- ENOMEM), e_vfsub_unlink := - EBUSY\<rparr>"

definition ex_tenv_nomem_rmdir :: txn_env where
  "ex_tenv_nomem_rmdir = ex_tenv\<lparr>e_au_new_inode := Inl (- ENOMEM), e_vfsub_rmdir := - EBUSY\<rparr>"

definition ex_tenv_nomem_opq :: txn_env where
  "ex_tenv_nomem_opq = ex_tenv\<lparr>e_au_new_inode := Inl (- ENOMEM), e_au_diropq_remove := - EBUSY\<rparr>"

definition ex_tenv_opq_fails :: txn_env where
  "ex_tenv_opq_fails = ex_tenv\<lparr>e_au_diropq_create := Inl (- ENOSPC)\<rparr>"

definition ex_tenv_opq_rmdir_fail :: txn_env where
  "ex_tenv_opq_rmdir_fail = ex_tenv\<lparr>e_au_diropq_create := Inl (- ENOSPC), e_vfsub_rmdir := - EBUSY\<rparr>"

section \<open>Properties\<close>

lemmas errno_defs =
  ENOENT_def EIO_def EAGAIN_def ENOMEM_def EBUSY_def EEXIST_def ENOTDIR_def
  EISDIR_def ENOSPC_def ENAMETOOLONG_def EOPNOTSUPP_def

lemmas exit_defs = out_unlock_def out_parent_def mkdir_out_unpin_def mkdir_out_dir_def
  au_unpin_def ev_def

lemmas run_defs = add_simple_def add_simple_create_def add_simple_revert_def aufs_mkdir_def
  mkdir_create_def mkdir_revert_def epilog_def lock_hdir_lkup_wh_def lkup_wh_check_def
  au_may_add_def au_d_may_add_def native_call_def exit_defs Let_def

lemmas tmpfile_defs = aufs_tmpfile_def tmpfile_out_parent_def tmpfile_out_si_def ev_def Let_def

subsection \<open>The maintenance mode\<close>

lemma plink_flag_on: "au_opt_test_PLINK AuOpt_PLINK"
  by (simp add: au_opt_test_PLINK_def AuOpt_PLINK_def)

lemma plink_flag_off: "\<not> au_opt_test_PLINK 0"
  by (simp add: au_opt_test_PLINK_def)


lemma enter_all_noplink:
  "\<not> au_opt_test_PLINK (si_mntflags sbi)
   \<Longrightarrow> enter_all sbi ps = (replicate (length ps) 0, sbi)"
  by (induction ps) (simp_all add: au_plink_maint_enter_def)

lemma walk_from_prev_true:
  "task_pid_vnr ps x \<noteq> pid \<Longrightarrow> task_pid_vnr ps ((real_parent ps ^^ n) x) = pid
   \<Longrightarrow> plink_walk ps pid x (Some x) = Some True"
proof (induction n arbitrary: x)
  case 0
  then show ?case by simp
next
  case (Suc n)
  show ?case
  proof (cases "real_parent ps x = x")
    case True
    then have "(real_parent ps ^^ k) x = x" for k
      by (induction k) simp_all
    with Suc.prems show ?thesis by metis
  next
    case False
    note ne = this
    show ?thesis
    proof (cases "task_pid_vnr ps (real_parent ps x) = pid")
      case True
      with ne show ?thesis
        by (subst plink_walk.simps) (simp add: Let_def)
    next
      case False
      from Suc.prems(2) have "task_pid_vnr ps ((real_parent ps ^^ n) (real_parent ps x)) = pid"
        by (simp add: funpow_swap1)
      with False Suc.IH have "plink_walk ps pid (real_parent ps x) (Some (real_parent ps x)) = Some True"
        by blast
      with ne False show ?thesis
        by (subst plink_walk.simps) (auto simp add: Let_def)
    qed
  qed
qed

lemma walk_start_true:
  assumes "task_pid_vnr ps ((real_parent ps ^^ Suc n) cur) = pid"
  shows "plink_walk ps pid cur None = Some True"
proof (cases "task_pid_vnr ps (real_parent ps cur) = pid")
  case True
  then show ?thesis by (subst plink_walk.simps) (simp add: Let_def)
next
  case False
  from assms have "task_pid_vnr ps ((real_parent ps ^^ n) (real_parent ps cur)) = pid"
    by (simp add: funpow_swap1)
  with False have "plink_walk ps pid (real_parent ps cur) (Some (real_parent ps cur)) = Some True"
    by (rule walk_from_prev_true)
  with False show ?thesis by (subst plink_walk.simps) (auto simp add: Let_def)
qed

lemma walk_from_prev_false:
  "real_parent ps ((real_parent ps ^^ n) x) = (real_parent ps ^^ n) x
   \<Longrightarrow> \<forall>k. task_pid_vnr ps ((real_parent ps ^^ Suc k) x) \<noteq> pid
   \<Longrightarrow> plink_walk ps pid x (Some x) = Some False"
proof (induction n arbitrary: x)
  case 0
  then show ?case by (subst plink_walk.simps) (simp add: Let_def)
next
  case (Suc n)
  show ?case
  proof (cases "real_parent ps x = x")
    case True
    then show ?thesis by (subst plink_walk.simps) (simp add: Let_def)
  next
    case False
    from Suc.prems(2) have p1: "task_pid_vnr ps (real_parent ps x) \<noteq> pid"
      by (metis funpow_0 funpow.simps(2) o_apply)
    have r: "real_parent ps ((real_parent ps ^^ n) (real_parent ps x)) = (real_parent ps ^^ n) (real_parent ps x)"
      using Suc.prems(1) by (simp add: funpow_swap1)
    have a: "\<forall>k. task_pid_vnr ps ((real_parent ps ^^ Suc k) (real_parent ps x)) \<noteq> pid"
    proof
      fix k
      from Suc.prems(2) have "task_pid_vnr ps ((real_parent ps ^^ Suc (Suc k)) x) \<noteq> pid" by blast
      then show "task_pid_vnr ps ((real_parent ps ^^ Suc k) (real_parent ps x)) \<noteq> pid"
        by (simp add: funpow_swap1)
    qed
    from Suc.IH [OF r a] False p1 show ?thesis
      by (subst plink_walk.simps) (auto simp add: Let_def)
  qed
qed

lemma walk_start_false:
  assumes "real_parent ps ((real_parent ps ^^ n) cur) = (real_parent ps ^^ n) cur"
    and "\<forall>k. task_pid_vnr ps ((real_parent ps ^^ Suc k) cur) \<noteq> pid"
  shows "plink_walk ps pid cur None = Some False"
proof -
  from assms(2) have p1: "task_pid_vnr ps (real_parent ps cur) \<noteq> pid"
    by (metis funpow_0 funpow.simps(2) o_apply)
  have r: "real_parent ps ((real_parent ps ^^ n) (real_parent ps cur)) = (real_parent ps ^^ n) (real_parent ps cur)"
  proof -
    have "real_parent ps (real_parent ps ((real_parent ps ^^ n) cur)) = real_parent ps ((real_parent ps ^^ n) cur)"
      using assms(1) by simp
    then show ?thesis by (simp add: funpow_swap1)
  qed
  have a: "\<forall>k. task_pid_vnr ps ((real_parent ps ^^ Suc k) (real_parent ps cur)) \<noteq> pid"
  proof
    fix k
    from assms(2) have "task_pid_vnr ps ((real_parent ps ^^ Suc (Suc k)) cur) \<noteq> pid" by blast
    then show "task_pid_vnr ps ((real_parent ps ^^ Suc k) (real_parent ps cur)) \<noteq> pid"
      by (simp add: funpow_swap1)
  qed
  from walk_from_prev_false [OF r a] p1 show ?thesis
    by (subst plink_walk.simps) (auto simp add: Let_def)
qed

lemma walk_unfold:
  "plink_walk ps pid parent prev =
     (if Some (real_parent ps parent) = prev then Some False
      else if pid = task_pid_vnr ps (real_parent ps parent) then Some True
      else plink_walk ps pid (real_parent ps parent) (Some (real_parent ps parent)))"
  by (subst plink_walk.simps) (simp add: Let_def)

lemma ex_procs_anc: "(real_parent ex_procs ^^ k) t = t - k"
  by (induction k) (simp_all add: ex_procs_def)

text \<open>
  \<open>au_plink_maint\<close> with the option set and \<open>NOPLM\<close> without \<open>NOPLMW\<close>: the owner is
  compared with \<open>current->pid\<close>, and with \<open>task_pid_vnr\<close> of each ancestor.
\<close>

lemma plink_maint_by_vnr:
  "(au_opt_test_PLINK (si_mntflags sbi)
      \<and> real_parent ps ((real_parent ps ^^ n) cur) = (real_parent ps ^^ n) cur
      \<and> NOPLM flags \<and> \<not> NOPLMW flags
    \<longrightarrow> au_plink_maint ps sbi flags cur =
          (if si_plink_maint_pid sbi \<noteq> 0
              \<and> si_plink_maint_pid sbi \<noteq> task_pid ps cur
              \<and> (\<forall>k. task_pid_vnr ps ((real_parent ps ^^ Suc k) cur) \<noteq> si_plink_maint_pid sbi)
           then Some (Ret (- EAGAIN), sbi) else Some (Ret 0, sbi)))
   \<and> (si_plink_maint_pid sbi = task_pid ps cur
        \<or> (\<exists>k. task_pid_vnr ps ((real_parent ps ^^ Suc k) cur) = si_plink_maint_pid sbi)
      \<longrightarrow> au_plink_maint ps sbi flags cur = Some (Ret 0, sbi))"
proof (intro conjI impI)
  assume a: "au_opt_test_PLINK (si_mntflags sbi)
      \<and> real_parent ps ((real_parent ps ^^ n) cur) = (real_parent ps ^^ n) cur
      \<and> NOPLM flags \<and> \<not> NOPLMW flags"
  let ?pid = "si_plink_maint_pid sbi"
  show "au_plink_maint ps sbi flags cur =
          (if ?pid \<noteq> 0 \<and> ?pid \<noteq> task_pid ps cur
              \<and> (\<forall>k. task_pid_vnr ps ((real_parent ps ^^ Suc k) cur) \<noteq> ?pid)
           then Some (Ret (- EAGAIN), sbi) else Some (Ret 0, sbi))"
  proof (cases "\<forall>k. task_pid_vnr ps ((real_parent ps ^^ Suc k) cur) \<noteq> ?pid")
    case True
    with a have "plink_walk ps ?pid cur None = Some False"
      by (intro walk_start_false [of ps n cur]) simp_all
    with a True show ?thesis by (simp add: au_plink_maint_def Let_def)
  next
    case False
    then obtain k where "task_pid_vnr ps ((real_parent ps ^^ Suc k) cur) = ?pid" by blast
    then have "plink_walk ps ?pid cur None = Some True" by (rule walk_start_true)
    with a False show ?thesis by (auto simp add: au_plink_maint_def Let_def)
  qed
next
  let ?pid = "si_plink_maint_pid sbi"
  assume "?pid = task_pid ps cur \<or> (\<exists>k. task_pid_vnr ps ((real_parent ps ^^ Suc k) cur) = ?pid)"
  then show "au_plink_maint ps sbi flags cur = Some (Ret 0, sbi)"
  proof
    assume "?pid = task_pid ps cur"
    then show ?thesis by (simp add: au_plink_maint_def Let_def)
  next
    assume "\<exists>k. task_pid_vnr ps ((real_parent ps ^^ Suc k) cur) = ?pid"
    then obtain k where "task_pid_vnr ps ((real_parent ps ^^ Suc k) cur) = ?pid" by blast
    then have "plink_walk ps ?pid cur None = Some True" by (rule walk_start_true)
    then show ?thesis by (simp add: au_plink_maint_def Let_def)
  qed
qed




text \<open>
  Claim C5, amended.  The code compares the recorded owner with the caller's
  \<open>pid\<close> and with \<open>task_pid_vnr\<close> of each ancestor.  With the pseudo-link option set,
  and the caller's chain of \<open>real_parent\<close> ending at a task that is its own parent, a
  call with \<open>NOPLM\<close> and without \<open>NOPLMW\<close> returns \<open>- EAGAIN\<close> at once exactly when an
  owner is recorded that is neither the caller's \<open>pid\<close> nor \<open>task_pid_vnr\<close> of one of
  its ancestors, and \<open>0\<close> otherwise (first conjunct); whatever the flags and the option,
  a caller whose \<open>pid\<close>, or \<open>task_pid_vnr\<close> of one of whose ancestors, is the recorded
  owner gets \<open>0\<close> without sleeping (second conjunct).  Where \<open>task_pid_vnr\<close> of every
  ancestor is its \<open>pid\<close>, this is the claim in terms of the caller and its ancestors:
  \<open>- EAGAIN\<close> exactly when the owner is neither the caller nor one of its ancestors
  (third conjunct); and a caller that is the owner, or has an ancestor whose
  \<open>task_pid_vnr\<close> is its \<open>pid\<close> and that is the owner, gets \<open>0\<close> without sleeping,
  whatever the flags and the option (fourth conjunct).
\<close>

theorem plink_maint_check:
  "(au_opt_test_PLINK (si_mntflags sbi)
      \<and> real_parent ps ((real_parent ps ^^ n) cur) = (real_parent ps ^^ n) cur
      \<and> NOPLM flags \<and> \<not> NOPLMW flags
    \<longrightarrow> au_plink_maint ps sbi flags cur =
          (if si_plink_maint_pid sbi \<noteq> 0
              \<and> si_plink_maint_pid sbi \<noteq> task_pid ps cur
              \<and> (\<forall>k. task_pid_vnr ps ((real_parent ps ^^ Suc k) cur) \<noteq> si_plink_maint_pid sbi)
           then Some (Ret (- EAGAIN), sbi) else Some (Ret 0, sbi)))
   \<and> (si_plink_maint_pid sbi = task_pid ps cur
        \<or> (\<exists>k. task_pid_vnr ps ((real_parent ps ^^ Suc k) cur) = si_plink_maint_pid sbi)
      \<longrightarrow> au_plink_maint ps sbi flags cur = Some (Ret 0, sbi))
   \<and> (au_opt_test_PLINK (si_mntflags sbi)
      \<and> real_parent ps ((real_parent ps ^^ n) cur) = (real_parent ps ^^ n) cur
      \<and> NOPLM flags \<and> \<not> NOPLMW flags
      \<and> (\<forall>k. task_pid_vnr ps ((real_parent ps ^^ Suc k) cur)
               = task_pid ps ((real_parent ps ^^ Suc k) cur))
    \<longrightarrow> au_plink_maint ps sbi flags cur =
          (if si_plink_maint_pid sbi \<noteq> 0
              \<and> si_plink_maint_pid sbi \<noteq> task_pid ps cur
              \<and> (\<forall>k. task_pid ps ((real_parent ps ^^ Suc k) cur) \<noteq> si_plink_maint_pid sbi)
           then Some (Ret (- EAGAIN), sbi) else Some (Ret 0, sbi)))
   \<and> (si_plink_maint_pid sbi = task_pid ps cur
        \<or> (\<exists>k. task_pid_vnr ps ((real_parent ps ^^ Suc k) cur)
                  = task_pid ps ((real_parent ps ^^ Suc k) cur)
               \<and> task_pid ps ((real_parent ps ^^ Suc k) cur) = si_plink_maint_pid sbi)
      \<longrightarrow> au_plink_maint ps sbi flags cur = Some (Ret 0, sbi))"
proof (intro conjI impI)
  assume "au_opt_test_PLINK (si_mntflags sbi)
      \<and> real_parent ps ((real_parent ps ^^ n) cur) = (real_parent ps ^^ n) cur
      \<and> NOPLM flags \<and> \<not> NOPLMW flags"
  with plink_maint_by_vnr [of sbi ps n cur flags]
  show "au_plink_maint ps sbi flags cur =
          (if si_plink_maint_pid sbi \<noteq> 0
              \<and> si_plink_maint_pid sbi \<noteq> task_pid ps cur
              \<and> (\<forall>k. task_pid_vnr ps ((real_parent ps ^^ Suc k) cur) \<noteq> si_plink_maint_pid sbi)
           then Some (Ret (- EAGAIN), sbi) else Some (Ret 0, sbi))"
    by blast
next
  assume "si_plink_maint_pid sbi = task_pid ps cur
        \<or> (\<exists>k. task_pid_vnr ps ((real_parent ps ^^ Suc k) cur) = si_plink_maint_pid sbi)"
  with plink_maint_by_vnr [of sbi ps n cur flags]
  show "au_plink_maint ps sbi flags cur = Some (Ret 0, sbi)"
    by blast
next
  assume a: "au_opt_test_PLINK (si_mntflags sbi)
      \<and> real_parent ps ((real_parent ps ^^ n) cur) = (real_parent ps ^^ n) cur
      \<and> NOPLM flags \<and> \<not> NOPLMW flags
      \<and> (\<forall>k. task_pid_vnr ps ((real_parent ps ^^ Suc k) cur)
               = task_pid ps ((real_parent ps ^^ Suc k) cur))"
  then have v: "task_pid_vnr ps ((real_parent ps ^^ Suc k) cur)
               = task_pid ps ((real_parent ps ^^ Suc k) cur)" for k
    by blast
  from a plink_maint_by_vnr [of sbi ps n cur flags]
  have "au_plink_maint ps sbi flags cur =
          (if si_plink_maint_pid sbi \<noteq> 0
              \<and> si_plink_maint_pid sbi \<noteq> task_pid ps cur
              \<and> (\<forall>k. task_pid_vnr ps ((real_parent ps ^^ Suc k) cur) \<noteq> si_plink_maint_pid sbi)
           then Some (Ret (- EAGAIN), sbi) else Some (Ret 0, sbi))"
    by blast
  then show "au_plink_maint ps sbi flags cur =
          (if si_plink_maint_pid sbi \<noteq> 0
              \<and> si_plink_maint_pid sbi \<noteq> task_pid ps cur
              \<and> (\<forall>k. task_pid ps ((real_parent ps ^^ Suc k) cur) \<noteq> si_plink_maint_pid sbi)
           then Some (Ret (- EAGAIN), sbi) else Some (Ret 0, sbi))"
    unfolding v .
next
  assume "si_plink_maint_pid sbi = task_pid ps cur
        \<or> (\<exists>k. task_pid_vnr ps ((real_parent ps ^^ Suc k) cur)
                  = task_pid ps ((real_parent ps ^^ Suc k) cur)
               \<and> task_pid ps ((real_parent ps ^^ Suc k) cur) = si_plink_maint_pid sbi)"
  then have "si_plink_maint_pid sbi = task_pid ps cur
        \<or> (\<exists>k. task_pid_vnr ps ((real_parent ps ^^ Suc k) cur) = si_plink_maint_pid sbi)"
    by auto
  with plink_maint_by_vnr [of sbi ps n cur flags]
  show "au_plink_maint ps sbi flags cur = Some (Ret 0, sbi)"
    by blast
qed

text \<open>
  Task 3 (pid 103, ancestors with pids 102, 101 and 100, each seen under its own pid):
  owner 7 is a stranger, owner 101 is its grandparent.
\<close>

theorem plink_maint_check_witness:
  "au_opt_test_PLINK (si_mntflags ex_sbi_held_other)
   \<and> real_parent ex_procs ((real_parent ex_procs ^^ 3) 3) = (real_parent ex_procs ^^ 3) 3
   \<and> NOPLM ex_noplm \<and> \<not> NOPLMW ex_noplm
   \<and> (\<forall>k. task_pid_vnr ex_procs ((real_parent ex_procs ^^ Suc k) 3)
             = task_pid ex_procs ((real_parent ex_procs ^^ Suc k) 3))
   \<and> au_plink_maint ex_procs ex_sbi_held_other ex_noplm 3 = Some (Ret (- EAGAIN), ex_sbi_held_other)
   \<and> task_pid_vnr ex_procs ((real_parent ex_procs ^^ Suc 1) 3)
       = task_pid ex_procs ((real_parent ex_procs ^^ Suc 1) 3)
   \<and> task_pid ex_procs ((real_parent ex_procs ^^ Suc 1) 3) = si_plink_maint_pid ex_sbi_held
   \<and> au_plink_maint ex_procs ex_sbi_held ex_noplmw 3 = Some (Ret 0, ex_sbi_held)
   \<and> au_plink_maint ex_procs ex_sbi_held ex_noplm 3 = Some (Ret 0, ex_sbi_held)"
proof -
  have h: "\<forall>k. task_pid ex_procs ((real_parent ex_procs ^^ Suc k) 3) \<noteq> 7"
    unfolding ex_procs_anc by (simp add: ex_procs_def)
  have s: "\<forall>k. task_pid_vnr ex_procs ((real_parent ex_procs ^^ Suc k) 3)
             = task_pid ex_procs ((real_parent ex_procs ^^ Suc k) 3)"
    by (simp add: ex_procs_def)
  have r: "real_parent ex_procs ((real_parent ex_procs ^^ 3) 3) = (real_parent ex_procs ^^ 3) 3"
    unfolding ex_procs_anc by (simp add: ex_procs_def)
  have m: "task_pid_vnr ex_procs ((real_parent ex_procs ^^ Suc 1) 3)
             = task_pid ex_procs ((real_parent ex_procs ^^ Suc 1) 3)"
    "task_pid ex_procs ((real_parent ex_procs ^^ Suc 1) 3) = 101"
    unfolding ex_procs_anc by (simp_all add: ex_procs_def)
  have p: "task_pid ex_procs 3 = 103" by (simp add: ex_procs_def)
  have f: "au_opt_test_PLINK (si_mntflags ex_sbi_held_other)" "NOPLM ex_noplm" "\<not> NOPLMW ex_noplm"
    "si_plink_maint_pid ex_sbi_held_other = 7" "si_plink_maint_pid ex_sbi_held = 101"
    by (simp_all add: ex_sbi_held_other_def ex_sbi_held_def ex_noplm_def plink_flag_on)
  note t1 = plink_maint_check [of ex_sbi_held_other ex_procs 3 3 ex_noplm]
  from t1 f r s h p
  have 1: "au_plink_maint ex_procs ex_sbi_held_other ex_noplm 3 = Some (Ret (- EAGAIN), ex_sbi_held_other)"
    by simp
  have e: "\<exists>k. task_pid_vnr ex_procs ((real_parent ex_procs ^^ Suc k) 3)
                  = task_pid ex_procs ((real_parent ex_procs ^^ Suc k) 3)
               \<and> task_pid ex_procs ((real_parent ex_procs ^^ Suc k) 3) = si_plink_maint_pid ex_sbi_held"
    using m f by (intro exI [of _ 1]) simp
  with plink_maint_check [of ex_sbi_held ex_procs 3 3 ex_noplmw]
  have 2: "au_plink_maint ex_procs ex_sbi_held ex_noplmw 3 = Some (Ret 0, ex_sbi_held)"
    by blast
  from e plink_maint_check [of ex_sbi_held ex_procs 3 3 ex_noplm]
  have 3: "au_plink_maint ex_procs ex_sbi_held ex_noplm 3 = Some (Ret 0, ex_sbi_held)"
    by blast
  from 1 2 3 f r s m show ?thesis by simp
qed

text \<open>
  Claim C5 as stated fails in two ways.  Without the pseudo-link option: owner 7 is
  recorded, it is neither task 3 nor one of its ancestors, and the call with \<open>NOPLM\<close>
  returns \<open>0\<close>.  With the option, where \<open>task_pid_vnr\<close> of an ancestor is not its
  \<open>pid\<close>: the owner recorded is pid 102, the parent of task 3, whose \<open>task_pid_vnr\<close> is
  3, and the call of task 3 with \<open>NOPLM\<close> returns \<open>- EAGAIN\<close>.
\<close>

theorem plink_maint_noplink_counterexample:
  "si_plink_maint_pid ex_sbi_noplink_held = 7
   \<and> task_pid ex_procs 3 = 103
   \<and> task_pid_vnr ex_procs (real_parent ex_procs 3) = 102
   \<and> task_pid_vnr ex_procs (real_parent ex_procs (real_parent ex_procs 3)) = 101
   \<and> task_pid_vnr ex_procs (real_parent ex_procs (real_parent ex_procs (real_parent ex_procs 3))) = 100
   \<and> real_parent ex_procs (real_parent ex_procs (real_parent ex_procs (real_parent ex_procs 3)))
       = real_parent ex_procs (real_parent ex_procs (real_parent ex_procs 3))
   \<and> NOPLM ex_noplm \<and> \<not> NOPLMW ex_noplm
   \<and> au_plink_maint ex_procs ex_sbi_noplink_held ex_noplm 3 = Some (Ret 0, ex_sbi_noplink_held)
   \<and> au_opt_test_PLINK (si_mntflags ex_sbi_held_parent)
   \<and> si_plink_maint_pid ex_sbi_held_parent = 102
   \<and> task_pid ex_procs_ns (real_parent ex_procs_ns 3) = 102
   \<and> task_pid_vnr ex_procs_ns (real_parent ex_procs_ns 3) = 3
   \<and> au_plink_maint ex_procs_ns ex_sbi_held_parent ex_noplm 3
       = Some (Ret (- EAGAIN), ex_sbi_held_parent)"
proof -
  have w: "plink_walk ex_procs_ns 102 3 None = Some False"
    by (simp add: walk_unfold ex_procs_ns_def)
  then show ?thesis
    by (simp add: au_plink_maint_def ex_sbi_noplink_held_def ex_sbi_held_parent_def plink_flag_off
        plink_flag_on ex_procs_def ex_procs_ns_def ex_noplm_def)
qed

text \<open>
  Claim C10.  Without the pseudo-link option \<open>au_plink_maint\<close> returns \<open>0\<close> at once for
  every caller and all flags, whatever owner is recorded, and \<open>au_plink_maint_enter\<close>
  returns \<open>0\<close> and records nothing: any number of callers enter together.
\<close>

theorem plink_disabled_no_gate:
  assumes "\<not> au_opt_test_PLINK (si_mntflags sbi)"
  shows "au_plink_maint ps sbi flags cur = Some (Ret 0, sbi)
         \<and> au_plink_maint_enter sbi p = (0, sbi)
         \<and> enter_all sbi pids = (replicate (length pids) 0, sbi)"
  using assms by (simp add: au_plink_maint_def au_plink_maint_enter_def enter_all_noplink)

theorem plink_disabled_no_gate_witness:
  "\<not> au_opt_test_PLINK (si_mntflags ex_sbi_noplink_held)
   \<and> au_plink_maint ex_procs ex_sbi_noplink_held ex_noplm 3 = Some (Ret 0, ex_sbi_noplink_held)
   \<and> au_plink_maint_enter ex_sbi_noplink_held 9 = (0, ex_sbi_noplink_held)
   \<and> enter_all ex_sbi_noplink_held [1, 2] = ([0, 0], ex_sbi_noplink_held)"
  using plink_disabled_no_gate [of ex_sbi_noplink_held ex_procs ex_noplm 3 9 "[1, 2]"]
  by (simp add: ex_sbi_noplink_held_def plink_flag_off)

subsection \<open>The pseudo-link table\<close>

lemma hbl_find_set: "hbl_find xs inode = (inode \<in> set xs)"
  by (induction xs) auto

lemma whplink_keeps:
  "si_plink (snd (whplink env t h i b)) = si_plink t"
  "i_count (snd (whplink env t h i b)) = i_count t"
  "i_ino (snd (whplink env t h i b)) = i_ino t"
  "plink_log (snd (whplink env t h i b)) = plink_log t"
  by (auto simp add: whplink_def Let_def split: if_splits prod.splits)

lemma whplink_err_cong:
  "wbr_plink t' = wbr_plink t \<Longrightarrow> i_ino t' = i_ino t \<Longrightarrow> h_i_ino t' = h_i_ino t
   \<Longrightarrow> fst (whplink env t' h i b) = fst (whplink env t h i b)"
  by (auto simp add: whplink_def plink_name_def Let_def split: if_splits prod.splits)

lemma append_unfold_absent:
  assumes nf: "\<not> hbl_find (si_plink t (au_plink_hash prm (i_ino t inode))) inode"
  shows "au_plink_append prm env t inode bindex h_inode =
           plink_append_tail prm env False
             (snd (plink_add_locked prm (au_igrab (snd (au_plink_test prm t inode)) inode) inode))
             inode bindex h_inode"
  using nf
  by (simp add: au_plink_append_def au_plink_test_def au_igrab_def plink_add_locked_def
      plog_def Let_def)

lemma append_unfold_present:
  assumes "hbl_find (si_plink t (au_plink_hash prm (i_ino t inode))) inode"
  shows "au_plink_append prm env t inode bindex h_inode =
           plog [HblLock (au_plink_hash prm (i_ino t inode)),
                 HblScan (au_plink_hash prm (i_ino t inode)) inode True,
                 HblUnlock (au_plink_hash prm (i_ino t inode))] t"
  using assms by (simp add: au_plink_append_def au_plink_test_def Let_def)

lemma pre_tail_fields:
  assumes nf: "\<not> hbl_find (si_plink t (au_plink_hash prm (i_ino t inode))) inode"
  shows "si_plink (pre_tail prm t inode) =
           (si_plink t)(au_plink_hash prm (i_ino t inode) := inode # si_plink t (au_plink_hash prm (i_ino t inode)))"
    and "i_count (pre_tail prm t inode) = (i_count t)(inode := i_count t inode + 1)"
    and "i_ino (pre_tail prm t inode) = i_ino t"
    and "h_i_ino (pre_tail prm t inode) = h_i_ino t"
    and "wbr_plink (pre_tail prm t inode) = wbr_plink t"
    and "plink_log (pre_tail prm t inode) =
           plink_log t @
           [HblLock (au_plink_hash prm (i_ino t inode)),
            HblScan (au_plink_hash prm (i_ino t inode)) inode False,
            HblUnlock (au_plink_hash prm (i_ino t inode)),
            Igrab inode,
            HblLock (au_plink_hash prm (i_ino t inode)),
            HblScan (au_plink_hash prm (i_ino t inode)) inode False,
            HblAddHead (au_plink_hash prm (i_ino t inode)) inode,
            HblUnlock (au_plink_hash prm (i_ino t inode))]"
  using nf
  by (simp_all add: pre_tail_def au_plink_test_def au_igrab_def plink_add_locked_def plog_def Let_def)

lemma tail_fail:
  assumes err: "fst (whplink env t1 h_inode inode bindex) \<noteq> 0"
  shows "plink_append_tail prm env False t1 inode bindex h_inode =
           iput (au_hbl_del
                  (plog [PrWarn (fst (whplink env t1 h_inode inode bindex))]
                     (snd (whplink env
                            (if length (si_plink t1 (au_plink_hash prm (i_ino t1 inode))) > AUFS_PLINK_WARN prm
                             then plog [AuWarn1 (length (si_plink t1 (au_plink_hash prm (i_ino t1 inode))))] t1
                             else t1) h_inode inode bindex)))
                  (au_plink_hash prm (i_ino t1 inode)) inode) inode"
proof -
  have "fst (whplink env (plog es t1) h_inode inode bindex) = fst (whplink env t1 h_inode inode bindex)" for es
    by (rule whplink_err_cong) (simp_all add: plog_def)
  with err show ?thesis
    by (simp add: plink_append_tail_def Let_def case_prod_beta)
qed

lemma tail_ok:
  assumes err: "fst (whplink env t1 h_inode inode bindex) = 0"
  shows "plink_append_tail prm env False t1 inode bindex h_inode =
           snd (whplink env
                  (if length (si_plink t1 (au_plink_hash prm (i_ino t1 inode))) > AUFS_PLINK_WARN prm
                   then plog [AuWarn1 (length (si_plink t1 (au_plink_hash prm (i_ino t1 inode))))] t1
                   else t1) h_inode inode bindex)"
proof -
  have "fst (whplink env (plog es t1) h_inode inode bindex) = fst (whplink env t1 h_inode inode bindex)" for es
    by (rule whplink_err_cong) (simp_all add: plog_def)
  with err show ?thesis
    by (simp add: plink_append_tail_def Let_def case_prod_beta)
qed

lemma append_fail_fields:
  assumes nf: "\<not> hbl_find (si_plink t (au_plink_hash prm (i_ino t inode))) inode"
    and err: "fst (whplink env t h_inode inode bindex) \<noteq> 0"
  shows "si_plink (au_plink_append prm env t inode bindex h_inode) = si_plink t
         \<and> i_count (au_plink_append prm env t inode bindex h_inode) = i_count t
         \<and> plink_log (au_plink_append prm env t inode bindex h_inode) =
             plink_log t @
             [HblLock (au_plink_hash prm (i_ino t inode)),
              HblScan (au_plink_hash prm (i_ino t inode)) inode False,
              HblUnlock (au_plink_hash prm (i_ino t inode)),
              Igrab inode,
              HblLock (au_plink_hash prm (i_ino t inode)),
              HblScan (au_plink_hash prm (i_ino t inode)) inode False,
              HblAddHead (au_plink_hash prm (i_ino t inode)) inode,
              HblUnlock (au_plink_hash prm (i_ino t inode))] @
             (if Suc (length (si_plink t (au_plink_hash prm (i_ino t inode)))) > AUFS_PLINK_WARN prm
              then [AuWarn1 (Suc (length (si_plink t (au_plink_hash prm (i_ino t inode)))))] else []) @
             [PrWarn (fst (whplink env t h_inode inode bindex)),
              HblLock (au_plink_hash prm (i_ino t inode)),
              HblDel (au_plink_hash prm (i_ino t inode)) inode,
              HblUnlock (au_plink_hash prm (i_ino t inode)),
              Iput inode]"
proof -
  let ?t1 = "pre_tail prm t inode"
  note f = pre_tail_fields [OF nf]
  have e: "fst (whplink env ?t1 h_inode inode bindex) = fst (whplink env t h_inode inode bindex)"
    by (rule whplink_err_cong) (simp_all add: f)
  have u: "au_plink_append prm env t inode bindex h_inode =
             plink_append_tail prm env False ?t1 inode bindex h_inode"
    unfolding pre_tail_def by (rule append_unfold_absent [OF nf])
  show ?thesis
    unfolding u
    using err
    by (simp add: tail_fail e f whplink_keeps iput_def au_hbl_del_def plog_def)
qed

lemma append_ok_fields:
  assumes nf: "\<not> hbl_find (si_plink t (au_plink_hash prm (i_ino t inode))) inode"
    and ok: "fst (whplink env t h_inode inode bindex) = 0"
  shows "si_plink (au_plink_append prm env t inode bindex h_inode) =
           (si_plink t)(au_plink_hash prm (i_ino t inode) := inode # si_plink t (au_plink_hash prm (i_ino t inode)))"
    and "i_count (au_plink_append prm env t inode bindex h_inode) = (i_count t)(inode := i_count t inode + 1)"
    and "i_ino (au_plink_append prm env t inode bindex h_inode) = i_ino t"
    and "plink_log (au_plink_append prm env t inode bindex h_inode) =
           plink_log t @
           [HblLock (au_plink_hash prm (i_ino t inode)),
            HblScan (au_plink_hash prm (i_ino t inode)) inode False,
            HblUnlock (au_plink_hash prm (i_ino t inode)),
            Igrab inode,
            HblLock (au_plink_hash prm (i_ino t inode)),
            HblScan (au_plink_hash prm (i_ino t inode)) inode False,
            HblAddHead (au_plink_hash prm (i_ino t inode)) inode,
            HblUnlock (au_plink_hash prm (i_ino t inode))] @
           (if Suc (length (si_plink t (au_plink_hash prm (i_ino t inode)))) > AUFS_PLINK_WARN prm
            then [AuWarn1 (Suc (length (si_plink t (au_plink_hash prm (i_ino t inode)))))] else [])"
proof -
  let ?t1 = "pre_tail prm t inode"
  note f = pre_tail_fields [OF nf]
  have e: "fst (whplink env ?t1 h_inode inode bindex) = 0"
    using ok whplink_err_cong [of ?t1 t env h_inode inode bindex] by (simp add: f)
  have u: "au_plink_append prm env t inode bindex h_inode =
             plink_append_tail prm env False ?t1 inode bindex h_inode"
    unfolding pre_tail_def by (rule append_unfold_absent [OF nf])
  show "si_plink (au_plink_append prm env t inode bindex h_inode) =
           (si_plink t)(au_plink_hash prm (i_ino t inode) := inode # si_plink t (au_plink_hash prm (i_ino t inode)))"
    unfolding u by (simp add: tail_ok [OF e] f whplink_keeps plog_def)
  show "i_count (au_plink_append prm env t inode bindex h_inode) = (i_count t)(inode := i_count t inode + 1)"
    unfolding u by (simp add: tail_ok [OF e] f whplink_keeps plog_def)
  show "i_ino (au_plink_append prm env t inode bindex h_inode) = i_ino t"
    unfolding u by (simp add: tail_ok [OF e] f whplink_keeps plog_def)
  show "plink_log (au_plink_append prm env t inode bindex h_inode) =
           plink_log t @
           [HblLock (au_plink_hash prm (i_ino t inode)),
            HblScan (au_plink_hash prm (i_ino t inode)) inode False,
            HblUnlock (au_plink_hash prm (i_ino t inode)),
            Igrab inode,
            HblLock (au_plink_hash prm (i_ino t inode)),
            HblScan (au_plink_hash prm (i_ino t inode)) inode False,
            HblAddHead (au_plink_hash prm (i_ino t inode)) inode,
            HblUnlock (au_plink_hash prm (i_ino t inode))] @
           (if Suc (length (si_plink t (au_plink_hash prm (i_ino t inode)))) > AUFS_PLINK_WARN prm
            then [AuWarn1 (Suc (length (si_plink t (au_plink_hash prm (i_ino t inode)))))] else [])"
    unfolding u by (simp add: tail_ok [OF e] f whplink_keeps plog_def)
qed

lemma append_guarded:
  "hbl_guarded None None
     (drop (length (plink_log t)) (plink_log (au_plink_append prm env t inode bindex h_inode)))"
proof (cases "hbl_find (si_plink t (au_plink_hash prm (i_ino t inode))) inode")
  case True
  then show ?thesis by (simp add: append_unfold_present plog_def)
next
  case nf: False
  show ?thesis
  proof (cases "fst (whplink env t h_inode inode bindex) = 0")
    case True
    show ?thesis by (simp add: append_ok_fields(4) [OF nf True])
  next
    case False
    from append_fail_fields [OF nf False] show ?thesis by simp
  qed
qed

lemma add_locked_count:
  "count_list (si_plink (snd (plink_add_locked prm t inode)) (au_plink_hash prm (i_ino t inode))) inode
     = max 1 (count_list (si_plink t (au_plink_hash prm (i_ino t inode))) inode)"
proof (cases "inode \<in> set (si_plink t (au_plink_hash prm (i_ino t inode)))")
  case True
  then have "count_list (si_plink t (au_plink_hash prm (i_ino t inode))) inode \<noteq> 0"
    by (simp add: count_list_0_iff)
  then have "count_list (si_plink t (au_plink_hash prm (i_ino t inode))) inode > 0"
    by simp
  with True show ?thesis
    by (simp add: plink_add_locked_def Let_def plog_def hbl_find_set)
next
  case False
  then show ?thesis
    by (simp add: plink_add_locked_def Let_def plog_def hbl_find_set count_list_0_iff)
qed

lemma raced_insert_is_undone:
  assumes "hbl_find (si_plink t (au_plink_hash prm (i_ino t inode))) inode"
  shows "si_plink (plink_append_tail prm env
                     (fst (plink_add_locked prm (au_igrab t inode) inode))
                     (snd (plink_add_locked prm (au_igrab t inode) inode)) inode bindex h_inode)
           = si_plink t
         \<and> i_count (plink_append_tail prm env
                     (fst (plink_add_locked prm (au_igrab t inode) inode))
                     (snd (plink_add_locked prm (au_igrab t inode) inode)) inode bindex h_inode)
           = i_count t"
  using assms
  by (simp add: plink_add_locked_def plink_append_tail_def au_igrab_def iput_def plog_def Let_def)

lemma ex_whplink_ok: "fst (whplink ex_env_ok ex_tbl 42 7 0) = 0"
  by (simp add: whplink_def plink_name_def ex_env_ok_def ex_tbl_def Let_def)

lemma ex_whplink_nospc: "fst (whplink ex_env_nospc ex_tbl 42 7 0) = - ENOSPC"
  by (simp add: whplink_def plink_name_def ex_env_nospc_def ex_tbl_def Let_def)

lemma race_inv_sym: "race_inv prm t0 inode pc1 pc2 t = race_inv prm t0 inode pc2 pc1 t"
proof -
  have a: "pending pc1 + pending pc2 = pending pc2 + pending pc1" by simp
  show ?thesis
    unfolding race_inv_def Let_def
    by (simp only: add.assoc a conj_ac disj_ac)
qed

lemma find_count: "hbl_find xs x = (count_list xs x \<noteq> 0)"
  by (simp add: hbl_find_set count_list_0_iff)

lemma tail_ok_fields:
  assumes "fst (whplink env t h_inode inode bindex) = 0"
  shows "si_plink (plink_append_tail prm env False t inode bindex h_inode) = si_plink t"
    "i_count (plink_append_tail prm env False t inode bindex h_inode) = i_count t"
    "i_ino (plink_append_tail prm env False t inode bindex h_inode) = i_ino t"
    "h_i_ino (plink_append_tail prm env False t inode bindex h_inode) = h_i_ino t"
proof -
  have h: "h_i_ino (snd (whplink env t' h_inode inode bindex)) = h_i_ino t'" for t'
    by (auto simp add: whplink_def Let_def split: if_splits prod.splits)
  show "si_plink (plink_append_tail prm env False t inode bindex h_inode) = si_plink t"
    "i_count (plink_append_tail prm env False t inode bindex h_inode) = i_count t"
    "i_ino (plink_append_tail prm env False t inode bindex h_inode) = i_ino t"
    "h_i_ino (plink_append_tail prm env False t inode bindex h_inode) = h_i_ino t"
    by (simp_all add: tail_ok [OF assms] whplink_keeps h plog_def)
qed

lemma race_step:
  assumes inv: "race_inv prm t0 inode pc1 pc2 t"
    and ok: "fst (whplink env t0 h_inode inode bindex) = 0"
    and step: "append_step prm env inode bindex h_inode (pc1, t) = (pc1', t')"
  shows "race_inv prm t0 inode pc1' pc2 t'"
proof (cases pc1)
  case At_test
  with inv step show ?thesis
    by (auto simp add: append_step_def au_plink_test_def race_inv_def Let_def plog_def pending_def
        find_count split: if_splits)
next
  case At_igrab
  with inv step show ?thesis
    by (auto simp add: append_step_def au_igrab_def race_inv_def Let_def plog_def pending_def)
next
  case At_lock
  with inv step show ?thesis
    by (auto simp add: append_step_def plink_add_locked_def race_inv_def Let_def plog_def pending_def
        find_count split: if_splits)
next
  case (At_tail found)
  show ?thesis
  proof (cases found)
    case True
    with At_tail inv step show ?thesis
      by (auto simp add: append_step_def plink_append_tail_def iput_def race_inv_def Let_def plog_def
          pending_def split: if_splits)
  next
    case False
    from inv At_tail False have w: "wbr_plink t = wbr_plink t0" "i_ino t = i_ino t0" "h_i_ino t = h_i_ino t0"
      by (simp_all add: race_inv_def Let_def)
    then have "fst (whplink env t h_inode inode bindex) = fst (whplink env t0 h_inode inode bindex)"
      by (intro whplink_err_cong)
    with ok have e: "fst (whplink env t h_inode inode bindex) = 0" by simp
    from step At_tail False have t': "t' = plink_append_tail prm env False t inode bindex h_inode"
      and p: "pc1' = At_return"
      by (simp_all add: append_step_def)
    from inv At_tail False show ?thesis
      unfolding t' p
      by (auto simp add: race_inv_def Let_def tail_ok_fields [OF e] pending_def)
  qed
next
  case At_return
  with inv step show ?thesis by (simp add: append_step_def)
qed

lemma race_run:
  assumes "race_inv prm t0 inode pc1 pc2 t"
    and "fst (whplink env1 t0 h_inode inode bindex) = 0"
    and "fst (whplink env2 t0 h_inode inode bindex) = 0"
    and "append_two prm env1 env2 inode bindex h_inode sch (pc1, pc2, t) = (pc1', pc2', t')"
  shows "race_inv prm t0 inode pc1' pc2' t'"
  using assms
proof (induction sch arbitrary: pc1 pc2 t)
  case Nil
  then show ?case by simp
next
  case (Cons first sch)
  show ?case
  proof (cases first)
    case True
    obtain p u where s: "append_step prm env1 inode bindex h_inode (pc1, t) = (p, u)"
      by (cases "append_step prm env1 inode bindex h_inode (pc1, t)")
    from Cons.prems(1,2) s have "race_inv prm t0 inode p pc2 u" by (rule race_step)
    moreover from Cons.prems(4) True s
    have "append_two prm env1 env2 inode bindex h_inode sch (p, pc2, u) = (pc1', pc2', t')"
      by simp
    ultimately show ?thesis using Cons.IH Cons.prems(2,3) by blast
  next
    case False
    obtain p u where s: "append_step prm env2 inode bindex h_inode (pc2, t) = (p, u)"
      by (cases "append_step prm env2 inode bindex h_inode (pc2, t)")
    from Cons.prems(1) have "race_inv prm t0 inode pc2 pc1 t" by (simp add: race_inv_sym)
    from this Cons.prems(3) s have "race_inv prm t0 inode p pc1 u" by (rule race_step)
    then have "race_inv prm t0 inode pc1 p u" by (simp add: race_inv_sym)
    moreover from Cons.prems(4) False s
    have "append_two prm env1 env2 inode bindex h_inode sch (pc1, p, u) = (pc1', pc2', t')"
      by simp
    ultimately show ?thesis using Cons.IH Cons.prems(2,3) by blast
  qed
qed

lemma step_dist:
  "pc_dist (fst (append_step prm env inode bindex h_inode (pc, t))) \<le> pc_dist pc - 1"
  by (cases pc) (auto simp add: append_step_def pc_dist_def Let_def split: prod.splits)

lemma run_dist:
  assumes "append_two prm env1 env2 inode bindex h_inode sch (pc1, pc2, t) = (pc1', pc2', t')"
  shows "pc_dist pc1' \<le> pc_dist pc1 - count_list sch True
       \<and> pc_dist pc2' \<le> pc_dist pc2 - count_list sch False"
  using assms
proof (induction sch arbitrary: pc1 pc2 t)
  case Nil
  then show ?case by simp
next
  case (Cons first sch)
  show ?case
  proof (cases first)
    case True
    obtain p u where s: "append_step prm env1 inode bindex h_inode (pc1, t) = (p, u)"
      by (cases "append_step prm env1 inode bindex h_inode (pc1, t)")
    with Cons.prems True
    have "append_two prm env1 env2 inode bindex h_inode sch (p, pc2, u) = (pc1', pc2', t')"
      by simp
    from Cons.IH [OF this] step_dist [of prm env1 inode bindex h_inode pc1 t] s True
    show ?thesis by (simp; arith)
  next
    case False
    obtain p u where s: "append_step prm env2 inode bindex h_inode (pc2, t) = (p, u)"
      by (cases "append_step prm env2 inode bindex h_inode (pc2, t)")
    with Cons.prems False
    have "append_two prm env1 env2 inode bindex h_inode sch (pc1, p, u) = (pc1', pc2', t')"
      by simp
    from Cons.IH [OF this] step_dist [of prm env2 inode bindex h_inode pc2 t] s False
    show ?thesis by (simp; arith)
  qed
qed

text \<open>
  A task that takes its four steps without the other one in between does what
  \<open>au_plink_append\<close> does.
\<close>

lemma append_alone:
  "append_two prm env1 env2 inode bindex h_inode [True, True, True, True] (At_test, pc2, t)
     = (At_return, pc2, au_plink_append prm env1 t inode bindex h_inode)"
  by (simp add: append_step_def au_plink_append_def Let_def split: prod.splits)

text \<open>
  Two tasks call \<open>au_plink_append\<close> for an inode that is not in the table, and the
  pseudo-link can be made.  Whatever the schedule, the inode is never twice in its
  bucket; it is there once as soon as one task has returned; when both have returned
  \<open>i_count\<close> is one more than at the start; and both have returned when each has taken
  four steps.
\<close>

lemma plink_append_two_tasks:
  assumes nf: "\<not> hbl_find (si_plink t (au_plink_hash prm (i_ino t inode))) inode"
    and ok1: "fst (whplink env1 t h_inode inode bindex) = 0"
    and ok2: "fst (whplink env2 t h_inode inode bindex) = 0"
    and run: "append_two prm env1 env2 inode bindex h_inode sch (At_test, At_test, t) = (pc1, pc2, t')"
  shows "count_list (si_plink t' (au_plink_hash prm (i_ino t inode))) inode \<le> 1"
    and "pc1 = At_return \<or> pc2 = At_return
         \<Longrightarrow> count_list (si_plink t' (au_plink_hash prm (i_ino t inode))) inode = 1"
    and "pc1 = At_return \<Longrightarrow> pc2 = At_return \<Longrightarrow> i_count t' inode = i_count t inode + 1"
    and "4 \<le> count_list sch True \<Longrightarrow> 4 \<le> count_list sch False
         \<Longrightarrow> pc1 = At_return \<and> pc2 = At_return"
proof -
  have "race_inv prm t inode At_test At_test t"
    using nf by (simp add: race_inv_def Let_def pending_def find_count)
  from this ok1 ok2 run have i: "race_inv prm t inode pc1 pc2 t'" by (rule race_run)
  then show "count_list (si_plink t' (au_plink_hash prm (i_ino t inode))) inode \<le> 1"
    by (simp add: race_inv_def Let_def)
  from i show "count_list (si_plink t' (au_plink_hash prm (i_ino t inode))) inode = 1"
    if "pc1 = At_return \<or> pc2 = At_return"
    using that by (auto simp add: race_inv_def Let_def)
  from i show "i_count t' inode = i_count t inode + 1" if "pc1 = At_return" "pc2 = At_return"
    using that by (simp add: race_inv_def Let_def pending_def)
  from run_dist [OF run]
  show "pc1 = At_return \<and> pc2 = At_return" if "4 \<le> count_list sch True" "4 \<le> count_list sch False"
    using that by (auto simp add: pc_dist_def split: append_pc.splits)
qed

text \<open>
  Claim C3, amended.  When the inode is not in the table and the pseudo-link of the
  first call is made (\<open>whplink\<close> returns \<open>0\<close>), two calls of \<open>au_plink_append\<close> for that
  inode leave it exactly once in its bucket and raise \<open>i_count\<close> by one; the second
  call only searches the bucket.  A call for an inode that is in the table only
  searches the bucket.  In every call each insertion follows, under the same holding
  of the bucket lock, a search that missed the inode.  From any state the critical
  section leaves the inode in its bucket once if it was not there, and as often as
  before otherwise.  And when the inode got into the bucket after \<open>au_plink_test\<close>
  (another task added it), the search under the lock finds it, nothing is added, and
  the reference taken by \<open>au_igrab\<close> is given back.  (\<open>plink_append_two_tasks\<close> above
  follows two tasks through every schedule.)
\<close>

theorem plink_append_idempotent:
  "(\<not> hbl_find (si_plink t (au_plink_hash prm (i_ino t inode))) inode
      \<and> fst (whplink env t h_inode inode bindex) = 0
    \<longrightarrow> (let t1 = au_plink_append prm env t inode bindex h_inode;
             t2 = au_plink_append prm env' t1 inode bindex' h_inode'
         in count_list (si_plink t2 (au_plink_hash prm (i_ino t inode))) inode = 1
            \<and> i_count t2 inode = i_count t inode + 1
            \<and> t2 = plog [HblLock (au_plink_hash prm (i_ino t inode)),
                         HblScan (au_plink_hash prm (i_ino t inode)) inode True,
                         HblUnlock (au_plink_hash prm (i_ino t inode))] t1))
   \<and> (hbl_find (si_plink t (au_plink_hash prm (i_ino t inode))) inode
      \<longrightarrow> au_plink_append prm env t inode bindex h_inode =
            plog [HblLock (au_plink_hash prm (i_ino t inode)),
                  HblScan (au_plink_hash prm (i_ino t inode)) inode True,
                  HblUnlock (au_plink_hash prm (i_ino t inode))] t)
   \<and> hbl_guarded None None
        (drop (length (plink_log t)) (plink_log (au_plink_append prm env t inode bindex h_inode)))
   \<and> count_list (si_plink (snd (plink_add_locked prm t inode)) (au_plink_hash prm (i_ino t inode))) inode
       = max 1 (count_list (si_plink t (au_plink_hash prm (i_ino t inode))) inode)
   \<and> (hbl_find (si_plink t (au_plink_hash prm (i_ino t inode))) inode
      \<longrightarrow> fst (plink_add_locked prm (au_igrab t inode) inode)
          \<and> si_plink (plink_append_tail prm env
                         (fst (plink_add_locked prm (au_igrab t inode) inode))
                         (snd (plink_add_locked prm (au_igrab t inode) inode)) inode bindex h_inode)
              = si_plink t
          \<and> i_count (plink_append_tail prm env
                         (fst (plink_add_locked prm (au_igrab t inode) inode))
                         (snd (plink_add_locked prm (au_igrab t inode) inode)) inode bindex h_inode)
              = i_count t)"
proof (intro conjI impI)
  let ?i = "au_plink_hash prm (i_ino t inode)"
  let ?t1 = "au_plink_append prm env t inode bindex h_inode"
  assume a: "\<not> hbl_find (si_plink t ?i) inode \<and> fst (whplink env t h_inode inode bindex) = 0"
  then have nf: "\<not> hbl_find (si_plink t ?i) inode" and ok: "fst (whplink env t h_inode inode bindex) = 0"
    by simp_all
  note f = append_ok_fields [OF nf ok]
  have present: "hbl_find (si_plink ?t1 (au_plink_hash prm (i_ino ?t1 inode))) inode"
    by (simp add: f)
  have t2: "au_plink_append prm env' ?t1 inode bindex' h_inode' =
              plog [HblLock ?i, HblScan ?i inode True, HblUnlock ?i] ?t1"
    using append_unfold_present [OF present] by (simp add: f)
  have c: "count_list (si_plink ?t1 ?i) inode = 1"
    using nf by (simp add: f hbl_find_set)
  show "let t1 = ?t1; t2 = au_plink_append prm env' t1 inode bindex' h_inode'
        in count_list (si_plink t2 ?i) inode = 1
           \<and> i_count t2 inode = i_count t inode + 1
           \<and> t2 = plog [HblLock ?i, HblScan ?i inode True, HblUnlock ?i] t1"
    using c by (simp add: Let_def t2 plog_def f)
next
  assume "hbl_find (si_plink t (au_plink_hash prm (i_ino t inode))) inode"
  then show "au_plink_append prm env t inode bindex h_inode =
            plog [HblLock (au_plink_hash prm (i_ino t inode)),
                  HblScan (au_plink_hash prm (i_ino t inode)) inode True,
                  HblUnlock (au_plink_hash prm (i_ino t inode))] t"
    by (rule append_unfold_present)
next
  show "hbl_guarded None None
        (drop (length (plink_log t)) (plink_log (au_plink_append prm env t inode bindex h_inode)))"
    by (rule append_guarded)
next
  show "count_list (si_plink (snd (plink_add_locked prm t inode)) (au_plink_hash prm (i_ino t inode))) inode
       = max 1 (count_list (si_plink t (au_plink_hash prm (i_ino t inode))) inode)"
    by (rule add_locked_count)
next
  assume "hbl_find (si_plink t (au_plink_hash prm (i_ino t inode))) inode"
  then show "fst (plink_add_locked prm (au_igrab t inode) inode)"
    by (simp add: plink_add_locked_def au_igrab_def plog_def Let_def)
next
  assume "hbl_find (si_plink t (au_plink_hash prm (i_ino t inode))) inode"
  then show "si_plink (plink_append_tail prm env
                         (fst (plink_add_locked prm (au_igrab t inode) inode))
                         (snd (plink_add_locked prm (au_igrab t inode) inode)) inode bindex h_inode)
              = si_plink t"
    using raced_insert_is_undone by blast
next
  assume "hbl_find (si_plink t (au_plink_hash prm (i_ino t inode))) inode"
  then show "i_count (plink_append_tail prm env
                         (fst (plink_add_locked prm (au_igrab t inode) inode))
                         (snd (plink_add_locked prm (au_igrab t inode) inode)) inode bindex h_inode)
              = i_count t"
    using raced_insert_is_undone by blast
qed

theorem plink_append_idempotent_witness:
  "\<not> hbl_find (si_plink ex_tbl (au_plink_hash ex_prm (i_ino ex_tbl 7))) 7
   \<and> fst (whplink ex_env_ok ex_tbl 42 7 0) = 0
   \<and> count_list (si_plink (au_plink_append ex_prm ex_env_nospc
                              (au_plink_append ex_prm ex_env_ok ex_tbl 7 0 42) 7 0 42)
                   (au_plink_hash ex_prm (i_ino ex_tbl 7))) 7 = 1
   \<and> i_count (au_plink_append ex_prm ex_env_nospc
                 (au_plink_append ex_prm ex_env_ok ex_tbl 7 0 42) 7 0 42) 7 = 2
   \<and> hbl_find (si_plink (au_plink_append ex_prm ex_env_ok ex_tbl 7 0 42)
                 (au_plink_hash ex_prm (i_ino (au_plink_append ex_prm ex_env_ok ex_tbl 7 0 42) 7))) 7"
proof -
  have nf: "\<not> hbl_find (si_plink ex_tbl (au_plink_hash ex_prm (i_ino ex_tbl 7))) 7"
    by (simp add: ex_tbl_def)
  from plink_append_idempotent [of ex_tbl ex_prm 7 ex_env_ok 42 0 ex_env_nospc 0 42] nf ex_whplink_ok
  have 1: "count_list (si_plink (au_plink_append ex_prm ex_env_nospc
                              (au_plink_append ex_prm ex_env_ok ex_tbl 7 0 42) 7 0 42)
                   (au_plink_hash ex_prm (i_ino ex_tbl 7))) 7 = 1
     \<and> i_count (au_plink_append ex_prm ex_env_nospc
                 (au_plink_append ex_prm ex_env_ok ex_tbl 7 0 42) 7 0 42) 7 = i_count ex_tbl 7 + 1"
    unfolding Let_def by blast
  have 2: "hbl_find (si_plink (au_plink_append ex_prm ex_env_ok ex_tbl 7 0 42)
                 (au_plink_hash ex_prm (i_ino (au_plink_append ex_prm ex_env_ok ex_tbl 7 0 42) 7))) 7"
    by (simp add: append_ok_fields [OF nf ex_whplink_ok])
  from 1 2 nf ex_whplink_ok show ?thesis by (simp add: ex_tbl_def)
qed

text \<open>
  Claim C3 as stated fails when the native link fails in both calls: the second call
  is not a no-op (it warns again), and the inode is not in the table afterwards.
\<close>

theorem plink_append_twice_counterexample:
  "si_plink (au_plink_append ex_prm ex_env_nospc
               (au_plink_append ex_prm ex_env_nospc ex_tbl 7 0 42) 7 0 42)
     (au_plink_hash ex_prm (i_ino ex_tbl 7)) = []
   \<and> i_count (au_plink_append ex_prm ex_env_nospc
               (au_plink_append ex_prm ex_env_nospc ex_tbl 7 0 42) 7 0 42) 7 = i_count ex_tbl 7
   \<and> PrWarn (- ENOSPC) \<in> set (drop (length (plink_log (au_plink_append ex_prm ex_env_nospc ex_tbl 7 0 42)))
        (plink_log (au_plink_append ex_prm ex_env_nospc
               (au_plink_append ex_prm ex_env_nospc ex_tbl 7 0 42) 7 0 42)))"
  by (simp add: au_plink_append_def au_plink_test_def plink_add_locked_def plink_append_tail_def
      au_igrab_def iput_def au_hbl_del_def whplink_def plink_name_def plog_def Let_def
      ex_prm_def ex_env_nospc_def ex_tbl_def ENOSPC_def)

text \<open>
  Claim C8.  When the inode was not in the table (so it is added) and \<open>whplink\<close> fails,
  \<open>au_plink_append\<close> leaves the table and the reference counts as they were: the log
  shows the insertion, the warning with the error, the removal under the bucket lock
  and the \<open>iput\<close>.  The result of \<open>au_plink_append\<close> is a state only; no error reaches
  the caller.  (\<open>whplink\<close> reads only the native directory and the inode numbers, so
  its error is the same on the state before the call.)
\<close>

theorem plink_append_failure_removes:
  assumes nf: "\<not> hbl_find (si_plink t (au_plink_hash prm (i_ino t inode))) inode"
    and err: "fst (whplink env t h_inode inode bindex) \<noteq> 0"
  shows "si_plink (au_plink_append prm env t inode bindex h_inode) = si_plink t
         \<and> i_count (au_plink_append prm env t inode bindex h_inode) = i_count t
         \<and> plink_log (au_plink_append prm env t inode bindex h_inode) =
             plink_log t @
             [HblLock (au_plink_hash prm (i_ino t inode)),
              HblScan (au_plink_hash prm (i_ino t inode)) inode False,
              HblUnlock (au_plink_hash prm (i_ino t inode)),
              Igrab inode,
              HblLock (au_plink_hash prm (i_ino t inode)),
              HblScan (au_plink_hash prm (i_ino t inode)) inode False,
              HblAddHead (au_plink_hash prm (i_ino t inode)) inode,
              HblUnlock (au_plink_hash prm (i_ino t inode))] @
             (if Suc (length (si_plink t (au_plink_hash prm (i_ino t inode)))) > AUFS_PLINK_WARN prm
              then [AuWarn1 (Suc (length (si_plink t (au_plink_hash prm (i_ino t inode)))))] else []) @
             [PrWarn (fst (whplink env t h_inode inode bindex)),
              HblLock (au_plink_hash prm (i_ino t inode)),
              HblDel (au_plink_hash prm (i_ino t inode)) inode,
              HblUnlock (au_plink_hash prm (i_ino t inode)),
              Iput inode]"
  using nf err by (rule append_fail_fields)

theorem plink_append_failure_removes_witness:
  "\<not> hbl_find (si_plink ex_tbl (au_plink_hash ex_prm (i_ino ex_tbl 7))) 7
   \<and> fst (whplink ex_env_nospc ex_tbl 42 7 0) \<noteq> 0
   \<and> si_plink (au_plink_append ex_prm ex_env_nospc ex_tbl 7 0 42) = si_plink ex_tbl
   \<and> i_count (au_plink_append ex_prm ex_env_nospc ex_tbl 7 0 42) = i_count ex_tbl
   \<and> PrWarn (- ENOSPC) \<in> set (plink_log (au_plink_append ex_prm ex_env_nospc ex_tbl 7 0 42))"
proof -
  have nf: "\<not> hbl_find (si_plink ex_tbl (au_plink_hash ex_prm (i_ino ex_tbl 7))) 7"
    by (simp add: ex_tbl_def)
  have ne: "fst (whplink ex_env_nospc ex_tbl 42 7 0) \<noteq> 0"
    by (simp add: ex_whplink_nospc ENOSPC_def)
  from plink_append_failure_removes [OF nf ne] nf ne show ?thesis
    by (simp add: ex_whplink_nospc ENOSPC_def)
qed

subsection \<open>Adding an entry\<close>

lemma lkup_wh_check_calls [simp]:
  "lkup_wh_check env (s\<lparr>calls := c\<rparr>) b isdir = lkup_wh_check env s b isdir"
  "lkup_wh_check env (s\<lparr>pinned := p\<rparr>) b isdir = lkup_wh_check env s b isdir"
  by (simp_all add: lkup_wh_check_def au_may_add_def Let_def)

lemma native_call_neq [simp]:
  "native_call type b \<noteq> Call_au_wh_unlink_dentry w"
  "Call_au_wh_unlink_dentry w \<noteq> native_call type b"
  "native_call type b \<noteq> Call_au_wh_create w"
  "Call_au_wh_create w \<noteq> native_call type b"
  by (simp_all add: native_call_def split: simple_type.splits)

lemma lock_facts:
  assumes "lock_hdir_lkup_wh env s dt isdir = (r, s3)"
    and "\<forall>b. Call_au_wh_unlink_dentry b \<notin> set (calls s)"
  shows "(\<forall>b. Call_au_wh_unlink_dentry b \<notin> set (calls s3))
         \<and> di_bwh s3 = di_bwh s \<and> di_btop s3 = di_btop s
         \<and> (\<forall>w. r = Inr (Some w) \<longrightarrow> w = di_bwh s)"
  using assms
  by (auto simp add: lock_hdir_lkup_wh_def au_unpin_def ev_def Let_def split: sum.splits if_splits)

lemma lock_state:
  assumes "lock_hdir_lkup_wh env s dt isdir = (r, s3)"
  shows "h_positive s3 = h_positive s" "diropq s3 = diropq s" "di_btop s3 = di_btop s"
    "di_bwh s3 = di_bwh s" "wh_positive s3 = wh_positive s"
    "filter is_unwind (calls s3) = filter is_unwind (calls s)"
    "(Call_vfsub_mkdir b \<in> set (calls s3)) = (Call_vfsub_mkdir b \<in> set (calls s))"
    "(Call_au_diropq_create b \<in> set (calls s3)) = (Call_au_diropq_create b \<in> set (calls s))"
  using assms
  by (auto simp add: lock_hdir_lkup_wh_def au_unpin_def ev_def Let_def split: sum.splits if_splits)

lemma out_unlock_calls:
  "calls (snd (out_unlock err s)) =
     calls s @ (if err \<noteq> 0 then [Call_au_update_dbtop, Call_d_drop] else []) @ [Call_aufs_read_unlock]"
  by (simp add: out_unlock_def ev_def Let_def)

lemma out_parent_calls:
  "calls (snd (out_parent err s)) =
     calls s @ [Call_di_write_unlock_parent]
       @ (if err \<noteq> 0 then [Call_au_update_dbtop, Call_d_drop] else []) @ [Call_aufs_read_unlock]"
  by (simp add: out_parent_def out_unlock_calls ev_def)

lemma create_wh_revert:
  assumes run: "add_simple_create env s3 type wh = (err, s')"
    and fresh: "\<forall>b. Call_au_wh_unlink_dentry b \<notin> set (calls s3)"
    and removed: "Call_au_wh_unlink_dentry b \<in> set (calls s')"
    and unlinked: "e_au_wh_unlink_dentry env = 0"
    and failed: "err \<noteq> 0"
  shows "wh = Some b
         \<and> isl (e_au_new_inode env)
         \<and> Call_au_wh_create (di_bwh s3) \<in> set (calls s')
         \<and> (isl (e_au_wh_create env) \<longrightarrow> err = - EIO)
         \<and> (\<not> isl (e_au_wh_create env) \<longrightarrow> wh_positive s' (di_bwh s3))
         \<and> (\<not> isl (e_au_wh_create env) \<and> e_vfsub_unlink env = 0
              \<longrightarrow> err = projl (e_au_new_inode env))
         \<and> (e_vfsub_unlink env \<noteq> 0 \<longrightarrow> err = - EIO)"
  using assms
  by (auto simp add: add_simple_create_def add_simple_revert_def epilog_def exit_defs Let_def
      split: sum.splits option.splits if_splits)

lemma mkdir_wh_revert:
  assumes run: "mkdir_create env s3 wh = (err, s')"
    and fresh: "\<forall>b. Call_au_wh_unlink_dentry b \<notin> set (calls s3)"
    and removed: "Call_au_wh_unlink_dentry b \<in> set (calls s')"
    and unlinked: "e_au_wh_unlink_dentry env = 0"
    and failed: "err \<noteq> 0"
  shows "wh = Some b
         \<and> isl (e_au_new_inode env)
         \<and> Call_au_wh_create (di_bwh s3) \<in> set (calls s')
         \<and> (isl (e_au_wh_create env) \<longrightarrow> err = - EIO)
         \<and> (\<not> isl (e_au_wh_create env) \<longrightarrow> wh_positive s' (di_bwh s3))
         \<and> (\<not> isl (e_au_wh_create env) \<and> e_au_diropq_remove env = 0 \<and> e_vfsub_rmdir env = 0
              \<longrightarrow> err = projl (e_au_new_inode env))
         \<and> (e_au_diropq_remove env \<noteq> 0 \<or> e_vfsub_rmdir env \<noteq> 0 \<longrightarrow> err = - EIO)"
  using assms
  by (auto simp add: mkdir_create_def mkdir_revert_def epilog_def exit_defs Let_def
      split: sum.splits option.splits if_splits)

lemma add_simple_cases:
  assumes run: "add_simple env s type = (err, s')"
    and removed: "Call_au_wh_unlink_dentry b \<in> set (calls s')"
    and fresh: "calls s = []"
  obtains wh s3 where
    "lock_hdir_lkup_wh env (ev Call_di_write_lock_parent (ev Call_aufs_read_lock s)) True False = (Inr wh, s3)"
    "add_simple_create env s3 type wh = (err, s')"
proof -
  obtain r s3 where l: "lock_hdir_lkup_wh env (ev Call_di_write_lock_parent (ev Call_aufs_read_lock s)) True False = (r, s3)"
    by (cases "lock_hdir_lkup_wh env (ev Call_di_write_lock_parent (ev Call_aufs_read_lock s)) True False")
  have nf: "\<forall>b. Call_au_wh_unlink_dentry b \<notin> set (calls (ev Call_di_write_lock_parent (ev Call_aufs_read_lock s)))"
    by (simp add: ev_def fresh)
  note lf = lock_facts [OF l nf]
  show thesis
  proof (cases r)
    case (Inl e)
    have "Call_au_wh_unlink_dentry b \<notin> set (calls s')"
    proof (cases "e_kmalloc env \<and> e_aufs_read_lock env = 0 \<and> au_d_may_add (ev Call_aufs_read_lock s) = 0")
      case True
      with run l Inl have "s' = snd (out_parent e s3)"
        by (simp add: add_simple_def Let_def)
      with lf show ?thesis by (simp add: out_parent_calls)
    next
      case False
      with run fresh show ?thesis
        by (auto simp add: add_simple_def Let_def out_unlock_def ev_def split: if_splits)
    qed
    with removed show ?thesis by simp
  next
    case (Inr wh)
    show ?thesis
    proof (cases "e_kmalloc env \<and> e_aufs_read_lock env = 0 \<and> au_d_may_add (ev Call_aufs_read_lock s) = 0")
      case True
      with run l Inr have "add_simple_create env s3 type wh = (err, s')"
        by (simp add: add_simple_def Let_def)
      with l Inr that show ?thesis by simp
    next
      case False
      with run fresh have "Call_au_wh_unlink_dentry b \<notin> set (calls s')"
        by (auto simp add: add_simple_def Let_def out_unlock_def ev_def split: if_splits)
      with removed show ?thesis by simp
    qed
  qed
qed

lemma aufs_mkdir_cases:
  assumes run: "aufs_mkdir env s = (err, s')"
    and removed: "Call_au_wh_unlink_dentry b \<in> set (calls s')"
    and fresh: "calls s = []"
  obtains wh s3 where
    "lock_hdir_lkup_wh env (ev Call_di_write_lock_parent (ev Call_aufs_read_lock s)) True True = (Inr wh, s3)"
    "mkdir_create env s3 wh = (err, s')"
proof -
  obtain r s3 where l: "lock_hdir_lkup_wh env (ev Call_di_write_lock_parent (ev Call_aufs_read_lock s)) True True = (r, s3)"
    by (cases "lock_hdir_lkup_wh env (ev Call_di_write_lock_parent (ev Call_aufs_read_lock s)) True True")
  have nf: "\<forall>b. Call_au_wh_unlink_dentry b \<notin> set (calls (ev Call_di_write_lock_parent (ev Call_aufs_read_lock s)))"
    by (simp add: ev_def fresh)
  note lf = lock_facts [OF l nf]
  show thesis
  proof (cases r)
    case (Inl e)
    have "Call_au_wh_unlink_dentry b \<notin> set (calls s')"
    proof (cases "e_kmalloc env \<and> e_aufs_read_lock env = 0 \<and> au_d_may_add (ev Call_aufs_read_lock s) = 0")
      case True
      with run l Inl have "s' = snd (out_parent e s3)"
        by (simp add: aufs_mkdir_def Let_def)
      with lf show ?thesis by (simp add: out_parent_calls)
    next
      case False
      with run fresh show ?thesis
        by (auto simp add: aufs_mkdir_def Let_def out_unlock_def ev_def split: if_splits)
    qed
    with removed show ?thesis by simp
  next
    case (Inr wh)
    show ?thesis
    proof (cases "e_kmalloc env \<and> e_aufs_read_lock env = 0 \<and> au_d_may_add (ev Call_aufs_read_lock s) = 0")
      case True
      with run l Inr have "mkdir_create env s3 wh = (err, s')"
        by (simp add: aufs_mkdir_def Let_def)
      with l Inr that show ?thesis by simp
    next
      case False
      with run fresh have "Call_au_wh_unlink_dentry b \<notin> set (calls s')"
        by (auto simp add: aufs_mkdir_def Let_def out_unlock_def ev_def split: if_splits)
      with removed show ?thesis by simp
    qed
  qed
qed

lemma mkdir_create_unwind:
  assumes run: "mkdir_create env s3 wh = (err, s')"
    and fresh: "filter is_unwind (calls s3) = []" "\<forall>b. Call_vfsub_mkdir b \<notin> set (calls s3)"
       "\<forall>b. Call_au_diropq_create b \<notin> set (calls s3)"
    and made: "Call_vfsub_mkdir b \<in> set (calls s')"
    and ok: "e_native env = 0"
    and failed: "err \<noteq> 0"
  shows "b = di_btop s3
    \<and> filter is_unwind (calls s') =
        (if Call_au_diropq_create b \<in> set (calls s') \<and> \<not> isl (e_au_diropq_create env)
         then [Call_au_diropq_remove b] else []) @ [Call_vfsub_rmdir b, Call_au_dtime_revert]
    \<and> ((Call_au_diropq_create b \<in> set (calls s') \<and> \<not> isl (e_au_diropq_create env)
          \<and> e_au_diropq_remove env \<noteq> 0) \<or> e_vfsub_rmdir env \<noteq> 0 \<longrightarrow> err = - EIO)
    \<and> h_positive s' b = (e_vfsub_rmdir env \<noteq> 0)
    \<and> (\<not> diropq s3 b \<longrightarrow>
         diropq s' b = (Call_au_diropq_create b \<in> set (calls s') \<and> \<not> isl (e_au_diropq_create env)
                        \<and> e_au_diropq_remove env \<noteq> 0))
    \<and> (Call_au_diropq_create b \<in> set (calls s') \<and> isl (e_au_diropq_create env)
          \<and> e_vfsub_rmdir env = 0
        \<longrightarrow> err = projl (e_au_diropq_create env))"
  using assms
  by (auto simp add: mkdir_create_def mkdir_revert_def epilog_def exit_defs Let_def
      split: sum.splits option.splits if_splits)

lemma aufs_mkdir_made:
  assumes run: "aufs_mkdir env s = (err, s')"
    and made: "Call_vfsub_mkdir b \<in> set (calls s')"
    and fresh: "calls s = []"
  obtains wh s3 where
    "lock_hdir_lkup_wh env (ev Call_di_write_lock_parent (ev Call_aufs_read_lock s)) True True = (Inr wh, s3)"
    "mkdir_create env s3 wh = (err, s')"
proof -
  let ?s2 = "ev Call_di_write_lock_parent (ev Call_aufs_read_lock s)"
  obtain r s3 where l: "lock_hdir_lkup_wh env ?s2 True True = (r, s3)"
    by (cases "lock_hdir_lkup_wh env ?s2 True True")
  have nf: "Call_vfsub_mkdir b \<notin> set (calls s3)"
    using lock_state(7) [OF l, of b] by (simp add: ev_def fresh)
  show thesis
  proof (cases "e_kmalloc env \<and> e_aufs_read_lock env = 0 \<and> au_d_may_add (ev Call_aufs_read_lock s) = 0")
    case False
    with run fresh have "Call_vfsub_mkdir b \<notin> set (calls s')"
      by (auto simp add: aufs_mkdir_def Let_def out_unlock_def ev_def split: if_splits)
    with made show ?thesis by simp
  next
    case True
    show ?thesis
    proof (cases r)
      case (Inl e)
      with True run l have "s' = snd (out_parent e s3)"
        by (simp add: aufs_mkdir_def Let_def)
      with nf have "Call_vfsub_mkdir b \<notin> set (calls s')" by (simp add: out_parent_calls)
      with made show ?thesis by simp
    next
      case (Inr wh)
      with True run l have "mkdir_create env s3 wh = (err, s')"
        by (simp add: aufs_mkdir_def Let_def)
      with l Inr that show ?thesis by simp
    qed
  qed
qed

lemma ex_nomem_add_simple:
  "fst (add_simple ex_tenv_nomem ex_txn Creat) = - ENOMEM"
  "calls (snd (add_simple ex_tenv_nomem ex_txn Creat)) =
     [Call_aufs_read_lock, Call_di_write_lock_parent, Call_au_wr_dir, Call_au_pin 2,
      Call_au_dtime_store, Call_au_wh_lkup 2, Call_vfsub_create 2, Call_au_wh_unlink_dentry 2,
      Call_au_new_inode, Call_au_wh_create 2, Call_vfsub_unlink 2, Call_au_dtime_revert,
      Call_au_unpin, Call_di_write_unlock_parent, Call_au_update_dbtop, Call_d_drop,
      Call_aufs_read_unlock]"
  by (simp_all add: run_defs ex_tenv_nomem_def ex_tenv_def ex_txn_def errno_defs AuOpt_UDBA_NONE_def AuOpt_UDBA_REVAL_def)

lemma ex_nomem_aufs_mkdir:
  "fst (aufs_mkdir ex_tenv_nomem ex_txn) = - ENOMEM"
  "calls (snd (aufs_mkdir ex_tenv_nomem ex_txn)) =
     [Call_aufs_read_lock, Call_di_write_lock_parent, Call_au_wr_dir, Call_au_pin 2,
      Call_au_dtime_store, Call_au_wh_lkup 2, Call_vfsub_mkdir 2, Call_au_diropq_create 2,
      Call_au_wh_unlink_dentry 2, Call_au_new_inode, Call_au_wh_create 2,
      Call_au_diropq_remove 2, Call_vfsub_rmdir 2, Call_au_dtime_revert,
      Call_au_unpin, Call_di_write_unlock_parent, Call_au_update_dbtop, Call_d_drop,
      Call_aufs_read_unlock]"
  by (simp_all add: run_defs ex_tenv_nomem_def ex_tenv_def ex_txn_def errno_defs AuOpt_UDBA_NONE_def AuOpt_UDBA_REVAL_def)

lemma ex_busy_removed:
  "Call_au_wh_unlink_dentry 2 \<in> set (calls (snd (add_simple ex_tenv_nomem_busy ex_txn Creat)))"
  "fst (add_simple ex_tenv_nomem_busy ex_txn Creat) \<noteq> 0"
  "Call_au_wh_unlink_dentry 2 \<in> set (calls (snd (aufs_mkdir ex_tenv_nomem_rmdir ex_txn)))"
  "fst (aufs_mkdir ex_tenv_nomem_rmdir ex_txn) \<noteq> 0"
  "Call_au_wh_unlink_dentry 2 \<in> set (calls (snd (aufs_mkdir ex_tenv_nomem_opq ex_txn)))"
  "fst (aufs_mkdir ex_tenv_nomem_opq ex_txn) \<noteq> 0"
  by (simp_all add: run_defs ex_tenv_nomem_busy_def ex_tenv_nomem_rmdir_def ex_tenv_nomem_opq_def
      ex_tenv_def ex_txn_def errno_defs AuOpt_UDBA_NONE_def AuOpt_UDBA_REVAL_def)

lemma ex_opq_fails_mkdir:
  "fst (aufs_mkdir ex_tenv_opq_fails ex_txn) = - ENOSPC"
  "calls (snd (aufs_mkdir ex_tenv_opq_fails ex_txn)) =
     [Call_aufs_read_lock, Call_di_write_lock_parent, Call_au_wr_dir, Call_au_pin 2,
      Call_au_dtime_store, Call_au_wh_lkup 2, Call_vfsub_mkdir 2, Call_au_diropq_create 2,
      Call_vfsub_rmdir 2, Call_au_dtime_revert,
      Call_au_unpin, Call_di_write_unlock_parent, Call_au_update_dbtop, Call_d_drop,
      Call_aufs_read_unlock]"
  by (simp_all add: run_defs ex_tenv_opq_fails_def ex_tenv_def ex_txn_def errno_defs AuOpt_UDBA_NONE_def AuOpt_UDBA_REVAL_def)

lemma ex_tmpfile_runs:
  "fst (aufs_tmpfile ex_tenv ex_txn) = 0"
  "fst (aufs_tmpfile ex_tenv (ex_txn\<lparr>h_tmpfile_op := (\<lambda>b. False)\<rparr>)) \<noteq> 0"
  "Call_au_new_inode \<in> set (calls (snd (aufs_tmpfile ex_tenv_nomem ex_txn)))"
  by (simp_all add: tmpfile_defs ex_tenv_nomem_def ex_tenv_def ex_txn_def errno_defs)

text \<open>
  Claim C1, amended.  When \<open>add_simple\<close> (create, symlink, mknod) or \<open>aufs_mkdir\<close> fails
  after \<open>au_wh_unlink_dentry\<close> removed the whiteout, the whiteout was on branch
  \<open>di_bwh\<close>, the step that failed is \<open>au_new_inode\<close>, and \<open>au_wh_create\<close> is called for
  branch \<open>di_bwh\<close>.  When \<open>au_wh_create\<close> fails the call returns \<open>- EIO\<close>.  When it
  succeeds the whiteout is there again at the end, and the call returns the error of
  \<open>au_new_inode\<close> provided the other reverts succeed too: \<open>vfsub_unlink\<close> of the new
  object in \<open>add_simple\<close>, \<open>au_diropq_remove\<close> and \<open>vfsub_rmdir\<close> in \<open>aufs_mkdir\<close>.
  When one of these fails the call returns \<open>- EIO\<close>.
\<close>

theorem whiteout_recreated_on_failure:
  assumes fresh: "calls s = []"
    and unlinked: "e_au_wh_unlink_dentry env = 0"
  shows "(\<forall>err s' b. add_simple env s type = (err, s')
            \<and> Call_au_wh_unlink_dentry b \<in> set (calls s') \<and> err \<noteq> 0
          \<longrightarrow> b = di_bwh s
              \<and> isl (e_au_new_inode env)
              \<and> Call_au_wh_create (di_bwh s) \<in> set (calls s')
              \<and> (isl (e_au_wh_create env) \<longrightarrow> err = - EIO)
              \<and> (\<not> isl (e_au_wh_create env) \<longrightarrow> wh_positive s' (di_bwh s))
              \<and> (\<not> isl (e_au_wh_create env) \<and> e_vfsub_unlink env = 0
                   \<longrightarrow> err = projl (e_au_new_inode env))
              \<and> (e_vfsub_unlink env \<noteq> 0 \<longrightarrow> err = - EIO))
       \<and> (\<forall>err s' b. aufs_mkdir env s = (err, s')
            \<and> Call_au_wh_unlink_dentry b \<in> set (calls s') \<and> err \<noteq> 0
          \<longrightarrow> b = di_bwh s
              \<and> isl (e_au_new_inode env)
              \<and> Call_au_wh_create (di_bwh s) \<in> set (calls s')
              \<and> (isl (e_au_wh_create env) \<longrightarrow> err = - EIO)
              \<and> (\<not> isl (e_au_wh_create env) \<longrightarrow> wh_positive s' (di_bwh s))
              \<and> (\<not> isl (e_au_wh_create env) \<and> e_au_diropq_remove env = 0 \<and> e_vfsub_rmdir env = 0
                   \<longrightarrow> err = projl (e_au_new_inode env))
              \<and> (e_au_diropq_remove env \<noteq> 0 \<or> e_vfsub_rmdir env \<noteq> 0 \<longrightarrow> err = - EIO))"
proof (intro conjI allI impI)
  fix err s' b
  assume a: "add_simple env s type = (err, s')
            \<and> Call_au_wh_unlink_dentry b \<in> set (calls s') \<and> err \<noteq> 0"
  then obtain wh s3 where
    l: "lock_hdir_lkup_wh env (ev Call_di_write_lock_parent (ev Call_aufs_read_lock s)) True False = (Inr wh, s3)"
    and c: "add_simple_create env s3 type wh = (err, s')"
    using fresh by (auto elim: add_simple_cases)
  have nf: "\<forall>b. Call_au_wh_unlink_dentry b \<notin> set (calls (ev Call_di_write_lock_parent (ev Call_aufs_read_lock s)))"
    by (simp add: ev_def fresh)
  from lock_facts [OF l nf]
  have lf: "\<forall>b. Call_au_wh_unlink_dentry b \<notin> set (calls s3)" "di_bwh s3 = di_bwh s"
    "\<forall>w. wh = Some w \<longrightarrow> w = di_bwh s"
    by (simp_all add: ev_def)
  from create_wh_revert [OF c lf(1) _ unlinked] a
  have r: "wh = Some b
         \<and> isl (e_au_new_inode env)
         \<and> Call_au_wh_create (di_bwh s3) \<in> set (calls s')
         \<and> (isl (e_au_wh_create env) \<longrightarrow> err = - EIO)
         \<and> (\<not> isl (e_au_wh_create env) \<longrightarrow> wh_positive s' (di_bwh s3))
         \<and> (\<not> isl (e_au_wh_create env) \<and> e_vfsub_unlink env = 0
              \<longrightarrow> err = projl (e_au_new_inode env))
         \<and> (e_vfsub_unlink env \<noteq> 0 \<longrightarrow> err = - EIO)"
    by blast
  with lf show "b = di_bwh s" by simp
  from r show "isl (e_au_new_inode env)" by simp
  from r lf show "Call_au_wh_create (di_bwh s) \<in> set (calls s')" by simp
  from r show "err = - EIO" if "isl (e_au_wh_create env)" using that by simp
  from r lf show "wh_positive s' (di_bwh s)" if "\<not> isl (e_au_wh_create env)" using that by simp
  from r show "err = projl (e_au_new_inode env)"
    if "\<not> isl (e_au_wh_create env) \<and> e_vfsub_unlink env = 0" using that by simp
  from r show "err = - EIO" if "e_vfsub_unlink env \<noteq> 0" using that by simp
next
  fix err s' b
  assume a: "aufs_mkdir env s = (err, s')
            \<and> Call_au_wh_unlink_dentry b \<in> set (calls s') \<and> err \<noteq> 0"
  then obtain wh s3 where
    l: "lock_hdir_lkup_wh env (ev Call_di_write_lock_parent (ev Call_aufs_read_lock s)) True True = (Inr wh, s3)"
    and c: "mkdir_create env s3 wh = (err, s')"
    using fresh by (auto elim: aufs_mkdir_cases)
  have nf: "\<forall>b. Call_au_wh_unlink_dentry b \<notin> set (calls (ev Call_di_write_lock_parent (ev Call_aufs_read_lock s)))"
    by (simp add: ev_def fresh)
  from lock_facts [OF l nf]
  have lf: "\<forall>b. Call_au_wh_unlink_dentry b \<notin> set (calls s3)" "di_bwh s3 = di_bwh s"
    "\<forall>w. wh = Some w \<longrightarrow> w = di_bwh s"
    by (simp_all add: ev_def)
  from mkdir_wh_revert [OF c lf(1) _ unlinked] a
  have r: "wh = Some b
         \<and> isl (e_au_new_inode env)
         \<and> Call_au_wh_create (di_bwh s3) \<in> set (calls s')
         \<and> (isl (e_au_wh_create env) \<longrightarrow> err = - EIO)
         \<and> (\<not> isl (e_au_wh_create env) \<longrightarrow> wh_positive s' (di_bwh s3))
         \<and> (\<not> isl (e_au_wh_create env) \<and> e_au_diropq_remove env = 0 \<and> e_vfsub_rmdir env = 0
              \<longrightarrow> err = projl (e_au_new_inode env))
         \<and> (e_au_diropq_remove env \<noteq> 0 \<or> e_vfsub_rmdir env \<noteq> 0 \<longrightarrow> err = - EIO)"
    by blast
  with lf show "b = di_bwh s" by simp
  from r show "isl (e_au_new_inode env)" by simp
  from r lf show "Call_au_wh_create (di_bwh s) \<in> set (calls s')" by simp
  from r show "err = - EIO" if "isl (e_au_wh_create env)" using that by simp
  from r lf show "wh_positive s' (di_bwh s)" if "\<not> isl (e_au_wh_create env)" using that by simp
  from r show "err = projl (e_au_new_inode env)"
    if "\<not> isl (e_au_wh_create env) \<and> e_au_diropq_remove env = 0 \<and> e_vfsub_rmdir env = 0"
    using that by simp
  from r show "err = - EIO" if "e_au_diropq_remove env \<noteq> 0 \<or> e_vfsub_rmdir env \<noteq> 0"
    using that by blast
qed

text \<open>
  \<open>au_new_inode\<close> fails with \<open>- ENOMEM\<close> after the whiteout on branch 2 was removed:
  with all reverts succeeding the call returns \<open>- ENOMEM\<close>; with \<open>vfsub_unlink\<close>,
  \<open>vfsub_rmdir\<close> or \<open>au_diropq_remove\<close> failing it returns \<open>- EIO\<close>.
\<close>

theorem whiteout_recreated_on_failure_witness:
  "calls ex_txn = [] \<and> e_au_wh_unlink_dentry ex_tenv_nomem = 0
   \<and> Call_au_wh_unlink_dentry 2 \<in> set (calls (snd (add_simple ex_tenv_nomem ex_txn Creat)))
   \<and> fst (add_simple ex_tenv_nomem ex_txn Creat) \<noteq> 0
   \<and> Call_au_wh_create 2 \<in> set (calls (snd (add_simple ex_tenv_nomem ex_txn Creat)))
   \<and> wh_positive (snd (add_simple ex_tenv_nomem ex_txn Creat)) 2
   \<and> fst (add_simple ex_tenv_nomem ex_txn Creat) = - ENOMEM
   \<and> Call_au_wh_unlink_dentry 2 \<in> set (calls (snd (aufs_mkdir ex_tenv_nomem ex_txn)))
   \<and> fst (aufs_mkdir ex_tenv_nomem ex_txn) \<noteq> 0
   \<and> wh_positive (snd (aufs_mkdir ex_tenv_nomem ex_txn)) 2
   \<and> fst (aufs_mkdir ex_tenv_nomem ex_txn) = - ENOMEM
   \<and> e_au_wh_unlink_dentry ex_tenv_nomem_busy = 0
   \<and> e_vfsub_unlink ex_tenv_nomem_busy \<noteq> 0
   \<and> Call_au_wh_unlink_dentry 2 \<in> set (calls (snd (add_simple ex_tenv_nomem_busy ex_txn Creat)))
   \<and> fst (add_simple ex_tenv_nomem_busy ex_txn Creat) = - EIO
   \<and> e_au_wh_unlink_dentry ex_tenv_nomem_rmdir = 0
   \<and> e_vfsub_rmdir ex_tenv_nomem_rmdir \<noteq> 0
   \<and> Call_au_wh_unlink_dentry 2 \<in> set (calls (snd (aufs_mkdir ex_tenv_nomem_rmdir ex_txn)))
   \<and> fst (aufs_mkdir ex_tenv_nomem_rmdir ex_txn) = - EIO
   \<and> e_au_wh_unlink_dentry ex_tenv_nomem_opq = 0
   \<and> e_au_diropq_remove ex_tenv_nomem_opq \<noteq> 0
   \<and> Call_au_wh_unlink_dentry 2 \<in> set (calls (snd (aufs_mkdir ex_tenv_nomem_opq ex_txn)))
   \<and> fst (aufs_mkdir ex_tenv_nomem_opq ex_txn) = - EIO"
proof -
  have f: "calls ex_txn = []" by (simp add: ex_txn_def)
  have u: "e_au_wh_unlink_dentry ex_tenv_nomem = 0" by (simp add: ex_tenv_nomem_def ex_tenv_def)
  have e: "\<not> isl (e_au_wh_create ex_tenv_nomem)" "e_vfsub_unlink ex_tenv_nomem = 0"
    "e_au_diropq_remove ex_tenv_nomem = 0" "e_vfsub_rmdir ex_tenv_nomem = 0"
    "projl (e_au_new_inode ex_tenv_nomem) = - ENOMEM" "di_bwh ex_txn = 2"
    by (simp_all add: ex_tenv_nomem_def ex_tenv_def ex_txn_def)
  have a1: "Call_au_wh_unlink_dentry 2 \<in> set (calls (snd (add_simple ex_tenv_nomem ex_txn Creat)))"
    and a2: "fst (add_simple ex_tenv_nomem ex_txn Creat) \<noteq> 0"
    by (simp_all add: ex_nomem_add_simple ENOMEM_def)
  have m1: "Call_au_wh_unlink_dentry 2 \<in> set (calls (snd (aufs_mkdir ex_tenv_nomem ex_txn)))"
    and m2: "fst (aufs_mkdir ex_tenv_nomem ex_txn) \<noteq> 0"
    by (simp_all add: ex_nomem_aufs_mkdir ENOMEM_def)
  note t = whiteout_recreated_on_failure [OF f u, of Creat]
  from t a1 a2 e
  have r1: "Call_au_wh_create 2 \<in> set (calls (snd (add_simple ex_tenv_nomem ex_txn Creat)))
    \<and> wh_positive (snd (add_simple ex_tenv_nomem ex_txn Creat)) 2
    \<and> fst (add_simple ex_tenv_nomem ex_txn Creat) = - ENOMEM"
    by (metis prod.collapse)
  from t m1 m2 e
  have r2: "wh_positive (snd (aufs_mkdir ex_tenv_nomem ex_txn)) 2
    \<and> fst (aufs_mkdir ex_tenv_nomem ex_txn) = - ENOMEM"
    by (metis prod.collapse)
  have ub: "e_au_wh_unlink_dentry ex_tenv_nomem_busy = 0" "e_vfsub_unlink ex_tenv_nomem_busy \<noteq> 0"
    by (simp_all add: ex_tenv_nomem_busy_def ex_tenv_def EBUSY_def)
  have ur: "e_au_wh_unlink_dentry ex_tenv_nomem_rmdir = 0" "e_vfsub_rmdir ex_tenv_nomem_rmdir \<noteq> 0"
    by (simp_all add: ex_tenv_nomem_rmdir_def ex_tenv_def EBUSY_def)
  have uo: "e_au_wh_unlink_dentry ex_tenv_nomem_opq = 0" "e_au_diropq_remove ex_tenv_nomem_opq \<noteq> 0"
    by (simp_all add: ex_tenv_nomem_opq_def ex_tenv_def EBUSY_def)
  from whiteout_recreated_on_failure [OF f ub(1), of Creat] ex_busy_removed(1,2) ub(2)
  have r3: "fst (add_simple ex_tenv_nomem_busy ex_txn Creat) = - EIO"
    by (metis prod.collapse)
  from whiteout_recreated_on_failure [OF f ur(1), of Creat] ex_busy_removed(3,4) ur(2)
  have r4: "fst (aufs_mkdir ex_tenv_nomem_rmdir ex_txn) = - EIO"
    by (metis prod.collapse)
  from whiteout_recreated_on_failure [OF f uo(1), of Creat] ex_busy_removed(5,6) uo(2)
  have r5: "fst (aufs_mkdir ex_tenv_nomem_opq ex_txn) = - EIO"
    by (metis prod.collapse)
  from f u a1 a2 m1 m2 r1 r2 ub ur uo r3 r4 r5 ex_busy_removed(1,3,5) show ?thesis by simp
qed

text \<open>
  Claim C1 as stated fails when the whiteout is created again but the new object
  cannot be unlinked: \<open>au_new_inode\<close> failed with \<open>- ENOMEM\<close>, the call returns
  \<open>- EIO\<close>.
\<close>

theorem whiteout_recreated_other_revert_fails_counterexample:
  "Call_au_wh_unlink_dentry 2 \<in> set (calls (snd (add_simple ex_tenv_nomem_busy ex_txn Creat)))
   \<and> e_au_wh_unlink_dentry ex_tenv_nomem_busy = 0
   \<and> e_au_new_inode ex_tenv_nomem_busy = Inl (- ENOMEM)
   \<and> Call_au_wh_create 2 \<in> set (calls (snd (add_simple ex_tenv_nomem_busy ex_txn Creat)))
   \<and> \<not> isl (e_au_wh_create ex_tenv_nomem_busy)
   \<and> wh_positive (snd (add_simple ex_tenv_nomem_busy ex_txn Creat)) 2
   \<and> fst (add_simple ex_tenv_nomem_busy ex_txn Creat) = - EIO
   \<and> fst (add_simple ex_tenv_nomem_busy ex_txn Creat) \<noteq> - ENOMEM"
  by (simp add: run_defs ex_tenv_nomem_busy_def ex_tenv_def ex_txn_def errno_defs AuOpt_UDBA_NONE_def AuOpt_UDBA_REVAL_def)

text \<open>
  Claim C2, amended.  When \<open>aufs_mkdir\<close> fails after \<open>vfsub_mkdir\<close> succeeded, the
  steps taken back are, in this order: \<open>au_diropq_remove\<close> if the opaque marker was
  set, \<open>vfsub_rmdir\<close>, \<open>au_dtime_revert\<close>; all of them run whatever the earlier ones
  answer.  A failure of \<open>au_diropq_remove\<close> or of \<open>vfsub_rmdir\<close> makes the call
  return \<open>- EIO\<close>.  The native directory is gone at the end exactly when
  \<open>vfsub_rmdir\<close> succeeded, and the opaque marker stays exactly when it was set and
  \<open>au_diropq_remove\<close> failed.  So when \<open>au_diropq_create\<close> fails and \<open>vfsub_rmdir\<close>
  succeeds, neither the directory nor a marker is left, and the call returns the
  error of \<open>au_diropq_create\<close>.
\<close>

theorem mkdir_unwinds_in_reverse:
  assumes fresh: "calls s = []"
    and run: "aufs_mkdir env s = (err, s')"
    and made: "Call_vfsub_mkdir b \<in> set (calls s')"
    and ok: "e_native env = 0"
    and failed: "err \<noteq> 0"
  shows "b = di_btop s
    \<and> filter is_unwind (calls s') =
        (if Call_au_diropq_create b \<in> set (calls s') \<and> \<not> isl (e_au_diropq_create env)
         then [Call_au_diropq_remove b] else []) @ [Call_vfsub_rmdir b, Call_au_dtime_revert]
    \<and> ((Call_au_diropq_create b \<in> set (calls s') \<and> \<not> isl (e_au_diropq_create env)
          \<and> e_au_diropq_remove env \<noteq> 0) \<or> e_vfsub_rmdir env \<noteq> 0 \<longrightarrow> err = - EIO)
    \<and> h_positive s' b = (e_vfsub_rmdir env \<noteq> 0)
    \<and> (\<not> diropq s b \<longrightarrow>
         diropq s' b = (Call_au_diropq_create b \<in> set (calls s') \<and> \<not> isl (e_au_diropq_create env)
                        \<and> e_au_diropq_remove env \<noteq> 0))
    \<and> (Call_au_diropq_create b \<in> set (calls s') \<and> isl (e_au_diropq_create env)
          \<and> e_vfsub_rmdir env = 0
        \<longrightarrow> err = projl (e_au_diropq_create env))"
proof -
  let ?s2 = "ev Call_di_write_lock_parent (ev Call_aufs_read_lock s)"
  from run made fresh obtain wh s3 where
    l: "lock_hdir_lkup_wh env ?s2 True True = (Inr wh, s3)"
    and c: "mkdir_create env s3 wh = (err, s')"
    by (rule aufs_mkdir_made)
  note ls = lock_state [OF l]
  have f1: "filter is_unwind (calls s3) = []"
    by (simp add: ls(6) ev_def fresh)
  have f2: "\<forall>b. Call_vfsub_mkdir b \<notin> set (calls s3)"
    by (simp add: ls(7) ev_def fresh)
  have f3: "\<forall>b. Call_au_diropq_create b \<notin> set (calls s3)"
    by (simp add: ls(8) ev_def fresh)
  have e: "di_btop s3 = di_btop s" "diropq s3 = diropq s"
    by (simp_all add: ls ev_def)
  show ?thesis
    using mkdir_create_unwind [OF c f1 f2 f3 made ok failed] unfolding e by blast
qed

theorem mkdir_unwinds_in_reverse_witness:
  "calls ex_txn = []
   \<and> Call_vfsub_mkdir 2 \<in> set (calls (snd (aufs_mkdir ex_tenv_opq_fails ex_txn)))
   \<and> e_native ex_tenv_opq_fails = 0
   \<and> fst (aufs_mkdir ex_tenv_opq_fails ex_txn) \<noteq> 0
   \<and> filter is_unwind (calls (snd (aufs_mkdir ex_tenv_opq_fails ex_txn)))
       = [Call_vfsub_rmdir 2, Call_au_dtime_revert]
   \<and> \<not> h_positive (snd (aufs_mkdir ex_tenv_opq_fails ex_txn)) 2
   \<and> \<not> diropq (snd (aufs_mkdir ex_tenv_opq_fails ex_txn)) 2"
proof -
  have f: "calls ex_txn = []" by (simp add: ex_txn_def)
  have m: "Call_vfsub_mkdir 2 \<in> set (calls (snd (aufs_mkdir ex_tenv_opq_fails ex_txn)))"
    by (simp add: ex_opq_fails_mkdir)
  have ok: "e_native ex_tenv_opq_fails = 0" by (simp add: ex_tenv_opq_fails_def ex_tenv_def)
  have ne: "fst (aufs_mkdir ex_tenv_opq_fails ex_txn) \<noteq> 0"
    by (simp add: ex_opq_fails_mkdir ENOSPC_def)
  have e: "isl (e_au_diropq_create ex_tenv_opq_fails)" "e_vfsub_rmdir ex_tenv_opq_fails = 0"
    "\<not> diropq ex_txn 2"
    by (simp_all add: ex_tenv_opq_fails_def ex_tenv_def ex_txn_def)
  from mkdir_unwinds_in_reverse [OF f surjective_pairing m ok ne] e
  have "filter is_unwind (calls (snd (aufs_mkdir ex_tenv_opq_fails ex_txn)))
       = [Call_vfsub_rmdir 2, Call_au_dtime_revert]
   \<and> \<not> h_positive (snd (aufs_mkdir ex_tenv_opq_fails ex_txn)) 2
   \<and> \<not> diropq (snd (aufs_mkdir ex_tenv_opq_fails ex_txn)) 2"
    by simp
  with f m ok ne show ?thesis by simp
qed

text \<open>
  Claim C2 as stated fails when \<open>au_diropq_create\<close> and \<open>vfsub_rmdir\<close> both fail: the
  native directory is left behind, and the call returns \<open>- EIO\<close>.
\<close>

theorem mkdir_opq_and_rmdir_fail_counterexample:
  "Call_vfsub_mkdir 2 \<in> set (calls (snd (aufs_mkdir ex_tenv_opq_rmdir_fail ex_txn)))
   \<and> e_native ex_tenv_opq_rmdir_fail = 0
   \<and> Call_au_diropq_create 2 \<in> set (calls (snd (aufs_mkdir ex_tenv_opq_rmdir_fail ex_txn)))
   \<and> isl (e_au_diropq_create ex_tenv_opq_rmdir_fail)
   \<and> Call_vfsub_rmdir 2 \<in> set (calls (snd (aufs_mkdir ex_tenv_opq_rmdir_fail ex_txn)))
   \<and> fst (aufs_mkdir ex_tenv_opq_rmdir_fail ex_txn) = - EIO
   \<and> h_positive (snd (aufs_mkdir ex_tenv_opq_rmdir_fail ex_txn)) 2"
  by (simp add: run_defs ex_tenv_opq_rmdir_fail_def ex_tenv_def ex_txn_def errno_defs AuOpt_UDBA_NONE_def AuOpt_UDBA_REVAL_def)

text \<open>
  Claim C6.  \<open>lock_hdir_lkup_wh\<close> calls \<open>au_wh_lkup\<close> exactly when \<open>au_wr_dir\<close> gave a
  branch, \<open>au_pin\<close> and the test of the name passed, and the branch is the one of the
  cached whiteout (\<open>bcpup == au_dbwh(dentry)\<close>); the lookup is on that branch.  When
  the branches differ, in particular when \<open>di_bwh\<close> is below the branch chosen
  (a greater index), the result is \<open>NULL\<close>, nothing is looked up, and the parent stays
  pinned for the creation.
\<close>

theorem lkup_wh_only_at_bwh:
  assumes "\<forall>b. Call_au_wh_lkup b \<notin> set (calls s)"
  shows "(Call_au_wh_lkup b \<in> set (calls (snd (lock_hdir_lkup_wh env s dt isdir))))
           = (b = e_au_wr_dir env \<and> 0 \<le> e_au_wr_dir env \<and> e_au_pin env = 0
              \<and> lkup_wh_check env s (e_au_wr_dir env) isdir = 0
              \<and> e_au_wr_dir env = di_bwh s)
         \<and> (0 \<le> e_au_wr_dir env \<and> e_au_pin env = 0
              \<and> lkup_wh_check env s (e_au_wr_dir env) isdir = 0
              \<and> e_au_wr_dir env \<noteq> di_bwh s
            \<longrightarrow> fst (lock_hdir_lkup_wh env s dt isdir) = Inr None
                \<and> pinned (snd (lock_hdir_lkup_wh env s dt isdir)))
         \<and> (0 \<le> e_au_wr_dir env \<and> e_au_pin env = 0
              \<and> lkup_wh_check env s (e_au_wr_dir env) isdir = 0
              \<and> e_au_wr_dir env < di_bwh s
            \<longrightarrow> fst (lock_hdir_lkup_wh env s dt isdir) = Inr None
                \<and> (\<forall>b. Call_au_wh_lkup b \<notin> set (calls (snd (lock_hdir_lkup_wh env s dt isdir)))))"
  using assms
  by (auto simp add: lock_hdir_lkup_wh_def au_unpin_def ev_def Let_def split: sum.splits)

theorem lkup_wh_only_at_bwh_witness:
  "(\<forall>b. Call_au_wh_lkup b \<notin> set (calls ex_txn))
   \<and> Call_au_wh_lkup 2 \<in> set (calls (snd (lock_hdir_lkup_wh ex_tenv ex_txn True False)))
   \<and> 0 \<le> e_au_wr_dir (ex_tenv\<lparr>e_au_wr_dir := 1\<rparr>) \<and> e_au_pin (ex_tenv\<lparr>e_au_wr_dir := 1\<rparr>) = 0
   \<and> lkup_wh_check (ex_tenv\<lparr>e_au_wr_dir := 1\<rparr>) ex_txn (e_au_wr_dir (ex_tenv\<lparr>e_au_wr_dir := 1\<rparr>)) False = 0
   \<and> e_au_wr_dir (ex_tenv\<lparr>e_au_wr_dir := 1\<rparr>) < di_bwh ex_txn
   \<and> fst (lock_hdir_lkup_wh (ex_tenv\<lparr>e_au_wr_dir := 1\<rparr>) ex_txn True False) = Inr None
   \<and> Call_au_wh_lkup 1 \<notin> set (calls (snd (lock_hdir_lkup_wh (ex_tenv\<lparr>e_au_wr_dir := 1\<rparr>) ex_txn True False)))"
proof -
  have f: "\<forall>b. Call_au_wh_lkup b \<notin> set (calls ex_txn)" by (simp add: ex_txn_def)
  have c: "lkup_wh_check ex_tenv ex_txn 2 False = 0"
    "lkup_wh_check (ex_tenv\<lparr>e_au_wr_dir := 1\<rparr>) ex_txn 1 False = 0"
    by (simp_all add: lkup_wh_check_def au_may_add_def ex_tenv_def ex_txn_def
        AuOpt_UDBA_NONE_def AuOpt_UDBA_REVAL_def)
  from lkup_wh_only_at_bwh [OF f, of 2 ex_tenv True False] c
  have 1: "Call_au_wh_lkup 2 \<in> set (calls (snd (lock_hdir_lkup_wh ex_tenv ex_txn True False)))"
    by (simp add: ex_tenv_def ex_txn_def)
  from lkup_wh_only_at_bwh [OF f, of 1 "ex_tenv\<lparr>e_au_wr_dir := 1\<rparr>" True False] c
  have 2: "fst (lock_hdir_lkup_wh (ex_tenv\<lparr>e_au_wr_dir := 1\<rparr>) ex_txn True False) = Inr None
    \<and> Call_au_wh_lkup 1 \<notin> set (calls (snd (lock_hdir_lkup_wh (ex_tenv\<lparr>e_au_wr_dir := 1\<rparr>) ex_txn True False)))"
    by (simp add: ex_tenv_def ex_txn_def)
  from f c 1 2 show ?thesis by (simp add: ex_tenv_def ex_txn_def)
qed

text \<open>
  Claim C7, amended.  Once the transaction has its memory and \<open>aufs_read_lock\<close>, a
  positive dentry makes \<open>add_simple\<close> and \<open>aufs_mkdir\<close> return \<open>- EEXIST\<close>, and an
  unhashed dentry that is not positive makes them return \<open>- ENOENT\<close>.  Nothing but
  \<open>aufs_read_lock\<close>, \<open>au_update_dbtop\<close>, \<open>d_drop\<close> and \<open>aufs_read_unlock\<close> is called:
  no branch is chosen and no native call runs, and the state is the one before
  except that the dentry is unhashed by \<open>d_drop\<close>.
\<close>

theorem may_add_rejects_first:
  assumes "e_kmalloc env" and "e_aufs_read_lock env = 0"
    and "d_inode s \<noteq> None \<or> d_unhashed s"
  shows "fst (add_simple env s type) = (if d_inode s \<noteq> None then - EEXIST else - ENOENT)
         \<and> snd (add_simple env s type) =
             s\<lparr>d_unhashed := True,
               calls := calls s @ [Call_aufs_read_lock, Call_au_update_dbtop, Call_d_drop,
                                   Call_aufs_read_unlock]\<rparr>
         \<and> aufs_mkdir env s = add_simple env s type"
  using assms
  by (auto simp add: add_simple_def aufs_mkdir_def au_d_may_add_def out_unlock_def ev_def Let_def
      errno_defs)

theorem may_add_rejects_first_witness:
  "e_kmalloc ex_tenv \<and> e_aufs_read_lock ex_tenv = 0
   \<and> d_inode (ex_txn\<lparr>d_inode := Some 7\<rparr>) \<noteq> None
   \<and> fst (add_simple ex_tenv (ex_txn\<lparr>d_inode := Some 7\<rparr>) Symlink) = - EEXIST
   \<and> d_unhashed (ex_txn\<lparr>d_unhashed := True\<rparr>)
   \<and> fst (aufs_mkdir ex_tenv (ex_txn\<lparr>d_unhashed := True\<rparr>)) = - ENOENT
   \<and> calls (snd (aufs_mkdir ex_tenv (ex_txn\<lparr>d_unhashed := True\<rparr>)))
       = [Call_aufs_read_lock, Call_au_update_dbtop, Call_d_drop, Call_aufs_read_unlock]"
proof -
  have k: "e_kmalloc ex_tenv" "e_aufs_read_lock ex_tenv = 0" by (simp_all add: ex_tenv_def)
  have p: "d_inode (ex_txn\<lparr>d_inode := Some 7\<rparr>) \<noteq> None \<or> d_unhashed (ex_txn\<lparr>d_inode := Some 7\<rparr>)"
    by simp
  have u: "d_inode (ex_txn\<lparr>d_unhashed := True\<rparr>) \<noteq> None \<or> d_unhashed (ex_txn\<lparr>d_unhashed := True\<rparr>)"
    by simp
  from may_add_rejects_first [OF k p, of Symlink] may_add_rejects_first [OF k u, of Symlink] k p u
  show ?thesis by (simp add: ex_txn_def)
qed

text \<open>
  Claim C7 as stated fails twice: a positive, hashed dentry is unhashed by the
  rejected call, so the state does change; and a dentry that is unhashed and positive
  gets \<open>- EEXIST\<close>, not \<open>- ENOENT\<close>.
\<close>

theorem may_add_changes_state_counterexample:
  "d_inode (ex_txn\<lparr>d_inode := Some 7\<rparr>) \<noteq> None
   \<and> fst (add_simple ex_tenv (ex_txn\<lparr>d_inode := Some 7\<rparr>) Creat) = - EEXIST
   \<and> \<not> d_unhashed (ex_txn\<lparr>d_inode := Some 7\<rparr>)
   \<and> d_unhashed (snd (add_simple ex_tenv (ex_txn\<lparr>d_inode := Some 7\<rparr>) Creat))
   \<and> d_unhashed (ex_txn\<lparr>d_inode := Some 7, d_unhashed := True\<rparr>)
   \<and> fst (add_simple ex_tenv (ex_txn\<lparr>d_inode := Some 7, d_unhashed := True\<rparr>) Creat) = - EEXIST
   \<and> - EEXIST \<noteq> - ENOENT"
  by (simp add: add_simple_def au_d_may_add_def out_unlock_def ev_def Let_def ex_tenv_def ex_txn_def
      errno_defs)

text \<open>
  Claim C9.  In \<open>aufs_tmpfile\<close>, with \<open>ERR_PTR(0)\<close> excluded as an answer:
  when the locks, \<open>au_di_init\<close>, the test of the parent and \<open>au_wr_dir\<close> succeeded and
  the native directory of the branch has no \<open>tmpfile\<close> operation, the call returns
  \<open>- EOPNOTSUPP\<close> and \<open>vfs_tmpfile\<close> is not called.  When the call returns \<open>0\<close>, the
  native dentry of \<open>vfs_tmpfile\<close> is held at the branch, top and bottom are that
  branch, the inode is attached by \<open>d_tmpfile\<close> and not by \<open>d_instantiate\<close>, and
  \<open>au_cpup_attr_timesizes\<close> is called exactly when \<open>au_ibtop(dir)\<close> is that branch.
  When \<open>au_new_inode\<close> fails, its error is returned, the native dentry is dropped and
  top and bottom are \<open>- 1\<close>.  No whiteout is looked up, removed or created, and the
  whiteouts are as before.
\<close>

theorem tmpfile_protocol:
  assumes fresh: "calls s = []"
    and run: "aufs_tmpfile env s = (err, s')"
    and wf: "e_vfs_tmpfile env \<noteq> Inl 0" "e_au_new_inode env \<noteq> Inl 0"
  shows "(e_si_read_lock env = 0 \<and> e_au_di_init env = 0 \<and> e_parent_is_alias env
            \<and> e_au_digen_test env = 0 \<and> 0 \<le> e_au_wr_dir env \<and> \<not> h_tmpfile_op s (e_au_wr_dir env)
          \<longrightarrow> err = - EOPNOTSUPP \<and> (\<forall>b. Call_vfs_tmpfile b \<notin> set (calls s')))
       \<and> (err = 0
          \<longrightarrow> h_tmpfile_op s (e_au_wr_dir env)
              \<and> Call_vfs_tmpfile (e_au_wr_dir env) \<in> set (calls s')
              \<and> (\<exists>h_dentry inode. e_vfs_tmpfile env = Inr h_dentry \<and> e_au_new_inode env = Inr inode
                    \<and> di_hdentry s' (e_au_wr_dir env) = Some h_dentry \<and> d_inode s' = Some inode)
              \<and> di_btop s' = e_au_wr_dir env \<and> di_bbot s' = e_au_wr_dir env
              \<and> di_tmpfile s'
              \<and> Call_d_tmpfile \<in> set (calls s') \<and> Call_d_instantiate \<notin> set (calls s')
              \<and> (Call_au_cpup_attr_timesizes \<in> set (calls s')) = (dir_ibtop s = e_au_wr_dir env))
       \<and> (Call_au_new_inode \<in> set (calls s') \<and> isl (e_au_new_inode env)
          \<longrightarrow> err = projl (e_au_new_inode env)
              \<and> di_hdentry s' (e_au_wr_dir env) = None
              \<and> di_btop s' = - 1 \<and> di_bbot s' = - 1
              \<and> Call_au_cpup_attr_timesizes \<notin> set (calls s'))
       \<and> (\<forall>b. Call_au_wh_lkup b \<notin> set (calls s') \<and> Call_au_wh_unlink_dentry b \<notin> set (calls s')
              \<and> Call_au_wh_create b \<notin> set (calls s'))
       \<and> wh_positive s' = wh_positive s"
  using run wf
  by (auto simp add: tmpfile_defs fresh EBUSY_def EOPNOTSUPP_def split: sum.splits if_splits)

theorem tmpfile_protocol_witness:
  "calls ex_txn = [] \<and> e_vfs_tmpfile ex_tenv \<noteq> Inl 0 \<and> e_au_new_inode ex_tenv \<noteq> Inl 0
   \<and> fst (aufs_tmpfile ex_tenv ex_txn) = 0
   \<and> di_hdentry (snd (aufs_tmpfile ex_tenv ex_txn)) 2 = Some 40
   \<and> di_btop (snd (aufs_tmpfile ex_tenv ex_txn)) = 2
   \<and> Call_au_cpup_attr_timesizes \<in> set (calls (snd (aufs_tmpfile ex_tenv ex_txn)))
   \<and> e_si_read_lock ex_tenv = 0 \<and> e_au_di_init ex_tenv = 0 \<and> e_parent_is_alias ex_tenv
   \<and> e_au_digen_test ex_tenv = 0 \<and> 0 \<le> e_au_wr_dir ex_tenv
   \<and> \<not> h_tmpfile_op (ex_txn\<lparr>h_tmpfile_op := (\<lambda>b. False)\<rparr>) (e_au_wr_dir ex_tenv)
   \<and> fst (aufs_tmpfile ex_tenv (ex_txn\<lparr>h_tmpfile_op := (\<lambda>b. False)\<rparr>)) = - EOPNOTSUPP
   \<and> e_vfs_tmpfile ex_tenv_nomem \<noteq> Inl 0 \<and> e_au_new_inode ex_tenv_nomem \<noteq> Inl 0
   \<and> Call_au_new_inode \<in> set (calls (snd (aufs_tmpfile ex_tenv_nomem ex_txn)))
   \<and> isl (e_au_new_inode ex_tenv_nomem)
   \<and> fst (aufs_tmpfile ex_tenv_nomem ex_txn) = - ENOMEM
   \<and> di_hdentry (snd (aufs_tmpfile ex_tenv_nomem ex_txn)) 2 = None
   \<and> di_btop (snd (aufs_tmpfile ex_tenv_nomem ex_txn)) = - 1
   \<and> di_bbot (snd (aufs_tmpfile ex_tenv_nomem ex_txn)) = - 1"
proof -
  have f: "calls ex_txn = []" "calls (ex_txn\<lparr>h_tmpfile_op := (\<lambda>b. False)\<rparr>) = []"
    by (simp_all add: ex_txn_def)
  have w: "e_vfs_tmpfile ex_tenv \<noteq> Inl 0" "e_au_new_inode ex_tenv \<noteq> Inl 0"
    "e_vfs_tmpfile ex_tenv_nomem \<noteq> Inl 0" "e_au_new_inode ex_tenv_nomem \<noteq> Inl 0"
    by (simp_all add: ex_tenv_nomem_def ex_tenv_def ENOMEM_def)
  have e: "e_si_read_lock ex_tenv = 0" "e_au_di_init ex_tenv = 0" "e_parent_is_alias ex_tenv"
    "e_au_digen_test ex_tenv = 0" "0 \<le> e_au_wr_dir ex_tenv" "e_au_wr_dir ex_tenv = 2"
    "\<not> h_tmpfile_op (ex_txn\<lparr>h_tmpfile_op := (\<lambda>b. False)\<rparr>) (e_au_wr_dir ex_tenv)"
    "e_vfs_tmpfile ex_tenv = Inr 40" "dir_ibtop ex_txn = 2"
    "isl (e_au_new_inode ex_tenv_nomem)" "projl (e_au_new_inode ex_tenv_nomem) = - ENOMEM"
    "e_au_wr_dir ex_tenv_nomem = 2"
    by (simp_all add: ex_tenv_nomem_def ex_tenv_def ex_txn_def)
  from tmpfile_protocol [OF f(1) surjective_pairing w(1,2)] ex_tmpfile_runs(1) e
  have 1: "di_hdentry (snd (aufs_tmpfile ex_tenv ex_txn)) 2 = Some 40
     \<and> di_btop (snd (aufs_tmpfile ex_tenv ex_txn)) = 2
     \<and> Call_au_cpup_attr_timesizes \<in> set (calls (snd (aufs_tmpfile ex_tenv ex_txn)))"
    by auto
  from tmpfile_protocol [OF f(2) surjective_pairing w(1,2)] e
  have 2: "fst (aufs_tmpfile ex_tenv (ex_txn\<lparr>h_tmpfile_op := (\<lambda>b. False)\<rparr>)) = - EOPNOTSUPP"
    by blast
  from tmpfile_protocol [OF f(1) surjective_pairing w(3,4)] ex_tmpfile_runs(3) e
  have 3: "fst (aufs_tmpfile ex_tenv_nomem ex_txn) = - ENOMEM
   \<and> di_hdentry (snd (aufs_tmpfile ex_tenv_nomem ex_txn)) 2 = None
   \<and> di_btop (snd (aufs_tmpfile ex_tenv_nomem ex_txn)) = - 1
   \<and> di_bbot (snd (aufs_tmpfile ex_tenv_nomem ex_txn)) = - 1"
    by auto
  from f w e ex_tmpfile_runs 1 2 3 show ?thesis by simp
qed

end
